theory Spec2Isabelle
  imports Complex_Main "HOL-Library.Log_Nat"
begin

section \<open>JavaScript values\<close>

text \<open>
  The server and the two browser scripts are JavaScript, so the data they handle is
  dynamically typed: a request body, a parsed data file and a menu item are all plain
  values. A number is an IEEE double; the theory reads a finite double as the real number
  it denotes and keeps the three special values apart. The one arithmetic operation of the
  code whose result has to be rounded, the addition in \<^verbatim>\<open>maxId + 1\<close>, rounds as the
  engine does (see \<open>toDouble\<close> below); comparisons, \<^verbatim>\<open>Math.min\<close> and \<^verbatim>\<open>Math.max\<close>
  are exact on doubles. Strings are lists of code units below 256. An object is its list of
  own properties in enumeration order.
\<close>

datatype jsnum = NaN | NegInf | Fin real | PosInf

datatype jsval =
    JUndefined
  | JNull
  | JBool bool
  | JNum jsnum
  | JStr string
  | JArr "jsval list"
  | JObj "(string \<times> jsval) list"

text \<open>What a \<^verbatim>\<open>throw\<close> carries, as far as the code tells the cases apart.\<close>

datatype error = TypeError | PlainError | IOError

text \<open>Sequencing of computations that may throw.\<close>

definition thenE :: "error + 'a \<Rightarrow> ('a \<Rightarrow> error + 'b) \<Rightarrow> error + 'b" where
  "thenE m f = (case m of Inl e \<Rightarrow> Inl e | Inr x \<Rightarrow> f x)"

text \<open>\<^verbatim>\<open>ToBoolean\<close>: the test behind \<^verbatim>\<open>if (v)\<close>, \<^verbatim>\<open>!v\<close>, \<^verbatim>\<open>a && b\<close> and \<^verbatim>\<open>a || b\<close>.\<close>

fun truthy :: "jsval \<Rightarrow> bool" where
  "truthy JUndefined = False"
| "truthy JNull = False"
| "truthy (JBool b) = b"
| "truthy (JNum n) = (n \<noteq> NaN \<and> n \<noteq> Fin 0)"
| "truthy (JStr s) = (s \<noteq> [])"
| "truthy (JArr xs) = True"
| "truthy (JObj kvs) = True"

text \<open>
  The property read \<^verbatim>\<open>v.k\<close>. It throws on \<^verbatim>\<open>undefined\<close> and \<^verbatim>\<open>null\<close>; on an
  object it is the own property or \<^verbatim>\<open>undefined\<close>; on every other value the names this
  theory reads (\<^verbatim>\<open>id\<close>, \<^verbatim>\<open>available\<close>, \<^verbatim>\<open>category\<close>, ...) are not defined by any
  prototype, so the result is \<^verbatim>\<open>undefined\<close>.
\<close>

fun getProp :: "jsval \<Rightarrow> string \<Rightarrow> error + jsval" where
  "getProp JUndefined k = Inl TypeError"
| "getProp JNull k = Inl TypeError"
| "getProp (JObj kvs) k = Inr (case map_of kvs k of None \<Rightarrow> JUndefined | Some v \<Rightarrow> v)"
| "getProp v k = Inr JUndefined"

fun isArray :: "jsval \<Rightarrow> bool" where
  "isArray (JArr xs) = True"
| "isArray v = False"

section \<open>Built-in conversions\<close>

text \<open>
  \<^verbatim>\<open>String(v)\<close>, \<^verbatim>\<open>parseInt(v)\<close> and \<^verbatim>\<open>parseFloat(v)\<close> first turn \<^verbatim>\<open>v\<close> into a string.
  That step is computed here for every value but a finite number, whose digits are the
  engine's; reading a number off a string is the engine's too. These three pure functions
  are the \<open>host\<close>, a parameter of every definition that converts. Nothing is assumed
  about it.
\<close>

record host =
  numberToString :: "real \<Rightarrow> string"
  stringToInt :: "string \<Rightarrow> jsnum"
  stringToFloat :: "string \<Rightarrow> jsnum"

fun join :: "string list \<Rightarrow> string" where
  "join [] = []"
| "join [s] = s"
| "join (s # t # ss) = s @ '','' @ join (t # ss)"

fun sequenceE :: "(error + 'a) list \<Rightarrow> error + 'a list" where
  "sequenceE [] = Inr []"
| "sequenceE (m # ms) = thenE m (\<lambda>x. thenE (sequenceE ms) (\<lambda>xs. Inr (x # xs)))"

text \<open>
  \<^verbatim>\<open>ToString\<close>. A plain object answers \<^verbatim>\<open>[object Object]\<close> through the inherited
  \<^verbatim>\<open>toString\<close>; an own property of that name (never callable in parsed JSON) hides
  it, \<^verbatim>\<open>valueOf\<close> does not yield a primitive, and the conversion throws a
  \<^verbatim>\<open>TypeError\<close>. An array joins its elements with commas, \<^verbatim>\<open>null\<close> and
  \<^verbatim>\<open>undefined\<close> as the empty string.
\<close>

fun ToString :: "host \<Rightarrow> jsval \<Rightarrow> error + string" where
  "ToString h JUndefined = Inr ''undefined''"
| "ToString h JNull = Inr ''null''"
| "ToString h (JBool b) = Inr (if b then ''true'' else ''false'')"
| "ToString h (JNum NaN) = Inr ''NaN''"
| "ToString h (JNum PosInf) = Inr ''Infinity''"
| "ToString h (JNum NegInf) = Inr ''-Infinity''"
| "ToString h (JNum (Fin r)) = Inr (numberToString h r)"
| "ToString h (JStr s) = Inr s"
| "ToString h (JArr xs) =
     thenE (sequenceE (map (\<lambda>x. if x = JUndefined \<or> x = JNull then Inr [] else ToString h x) xs))
       (\<lambda>ss. Inr (join ss))"
| "ToString h (JObj kvs) =
     (if ''toString'' \<in> fst ` set kvs then Inl TypeError else Inr ''[object Object]'')"

text \<open>
  \<^verbatim>\<open>parseInt(v)\<close> with no radix. An integer below \<open>10\<^sup>2\<^sup>1\<close> in size prints as its
  digits and reads back as itself; \<^verbatim>\<open>undefined\<close>, \<^verbatim>\<open>null\<close>, booleans, \<^verbatim>\<open>NaN\<close> and the
  infinities print as words, which read as \<^verbatim>\<open>NaN\<close>.
\<close>

fun parseInt :: "host \<Rightarrow> jsval \<Rightarrow> error + jsnum" where
  "parseInt h JUndefined = Inr NaN"
| "parseInt h JNull = Inr NaN"
| "parseInt h (JBool b) = Inr NaN"
| "parseInt h (JNum (Fin r)) =
     (if r \<in> \<int> \<and> \<bar>r\<bar> < 10 ^ 21 then Inr (Fin r)
      else Inr (stringToInt h (numberToString h r)))"
| "parseInt h (JNum n) = Inr NaN"
| "parseInt h v = thenE (ToString h v) (\<lambda>s. Inr (stringToInt h s))"

text \<open>\<^verbatim>\<open>parseFloat(v)\<close>: a number prints and reads back as itself.\<close>

fun parseFloat :: "host \<Rightarrow> jsval \<Rightarrow> error + jsnum" where
  "parseFloat h JUndefined = Inr NaN"
| "parseFloat h JNull = Inr NaN"
| "parseFloat h (JBool b) = Inr NaN"
| "parseFloat h (JNum n) = Inr n"
| "parseFloat h v = thenE (ToString h v) (\<lambda>s. Inr (stringToFloat h s))"

text \<open>\<^verbatim>\<open>n || 0\<close> on a number, and the comparison \<^verbatim>\<open>a < b\<close> of two numbers.\<close>

definition orZero :: "jsnum \<Rightarrow> jsnum" where
  "orZero n = (if truthy (JNum n) then n else Fin 0)"

fun jsless :: "jsnum \<Rightarrow> jsnum \<Rightarrow> bool" where
  "jsless NaN b = False"
| "jsless a NaN = False"
| "jsless PosInf b = False"
| "jsless a NegInf = False"
| "jsless NegInf b = True"
| "jsless a PosInf = True"
| "jsless (Fin x) (Fin y) = (x < y)"

text \<open>
  The addition \<^verbatim>\<open>n + 1\<close>. The doubles are the numbers \<open>k \<sqdot> 2\<^sup>e\<close> with \<open>\<bar>k\<bar> < 2\<^sup>5\<^sup>3\<close>
  and \<open>e \<ge> -1074\<close>, below \<open>2\<^sup>1\<^sup>0\<^sup>2\<^sup>4\<close> in size. Around a number \<open>r\<close> they lie \<open>ulp r\<close>
  apart: with \<open>b\<close> the number of binary digits of the integer part of \<open>\<bar>r\<bar> \<sqdot> 2\<^sup>1\<^sup>0\<^sup>7\<^sup>4\<close>, the
  spacing is \<open>2\<close> to the power \<open>b - 53 - 1074\<close>, and \<open>2\<close> to the power \<open>-1074\<close> where
  \<open>b\<close> is below 53. The sum is the exact sum rounded to the nearest double, to the one with
  the even \<open>k\<close> when two are equally near, and to an infinity when that rounding reaches
  \<open>2\<^sup>1\<^sup>0\<^sup>2\<^sup>4\<close>. So \<open>n + 1\<close> is exact for an integer \<open>n\<close> up to \<open>2\<^sup>5\<^sup>3 - 1\<close>, and
  \<open>2\<^sup>5\<^sup>3 + 1\<close> is \<open>2\<^sup>5\<^sup>3\<close> again.
\<close>

definition halfEven :: "real \<Rightarrow> int" where
  "halfEven q =
     (let f = \<lfloor>q\<rfloor>; d = q - of_int f
      in if d < 1 / 2 then f else if 1 / 2 < d then f + 1 else if even f then f else f + 1)"

definition ulp :: "real \<Rightarrow> real" where
  "ulp r = 2 powi (max 0 (bitlen \<lfloor>\<bar>r\<bar> * 2 ^ 1074\<rfloor> - 53) - 1074)"

definition toDouble :: "real \<Rightarrow> jsnum" where
  "toDouble r =
     (let y = of_int (halfEven (r / ulp r)) * ulp r
      in if 2 ^ 1024 \<le> \<bar>y\<bar> then (if r < 0 then NegInf else PosInf) else Fin y)"

fun jsplus1 :: "jsnum \<Rightarrow> jsnum" where
  "jsplus1 (Fin x) = toDouble (x + 1)"
| "jsplus1 n = n"

text \<open>
  \<^verbatim>\<open>JSON.parse(JSON.stringify(v))\<close> for \<^verbatim>\<open>v\<close> inside an array: what the text of a value
  holds of it. \<^verbatim>\<open>undefined\<close>, \<^verbatim>\<open>NaN\<close> and the infinities are written as \<^verbatim>\<open>null\<close>, a
  property whose value is \<^verbatim>\<open>undefined\<close> is left out. The lexical layer (that the text
  of a JSON value parses back to it) is the engine's and not restated.
\<close>

fun jsonValue :: "jsval \<Rightarrow> jsval" where
  "jsonValue JUndefined = JNull"
| "jsonValue (JNum (Fin r)) = JNum (Fin r)"
| "jsonValue (JNum n) = JNull"
| "jsonValue (JArr xs) = JArr (map jsonValue xs)"
| "jsonValue (JObj kvs) =
     JObj (map (\<lambda>(k, v). (k, jsonValue v)) (filter (\<lambda>(k, v). v \<noteq> JUndefined) kvs))"
| "jsonValue v = v"

text \<open>The values JSON can express: no \<^verbatim>\<open>undefined\<close>, \<^verbatim>\<open>NaN\<close> or infinity anywhere.\<close>

fun jsonClean :: "jsval \<Rightarrow> bool" where
  "jsonClean JUndefined = False"
| "jsonClean (JNum (Fin r)) = True"
| "jsonClean (JNum n) = False"
| "jsonClean (JArr xs) = list_all jsonClean xs"
| "jsonClean (JObj kvs) = list_all (\<lambda>(k, v). jsonClean v) kvs"
| "jsonClean v = True"

section \<open>The public renderer: final visibility of a menu item\<close>

text \<open>
  From \<^verbatim>\<open>renderMenuItems\<close> of the public menu script:
  \<^verbatim>\<open>
    const isAvailable = item.available !== false; // Default to true if not set
    const scheduleInfo = item.scheduleAvailability || {};
    const isScheduledAvailable = scheduleInfo.isAvailable !== false;
    const finalAvailable = isAvailable && isScheduledAvailable;
  \<close>
  \<^verbatim>\<open>item\<close> is an element of the list being rendered; reading a property of it throws
  when it is \<^verbatim>\<open>null\<close> or \<^verbatim>\<open>undefined\<close>.
\<close>

definition isAvailable :: "jsval \<Rightarrow> error + bool" where
  "isAvailable item = thenE (getProp item ''available'') (\<lambda>a. Inr (a \<noteq> JBool False))"

definition scheduleInfo :: "jsval \<Rightarrow> error + jsval" where
  "scheduleInfo item =
     thenE (getProp item ''scheduleAvailability'') (\<lambda>sa. Inr (if truthy sa then sa else JObj []))"

definition isScheduledAvailable :: "jsval \<Rightarrow> error + bool" where
  "isScheduledAvailable item =
     thenE (scheduleInfo item) (\<lambda>info.
     thenE (getProp info ''isAvailable'') (\<lambda>a. Inr (a \<noteq> JBool False)))"

definition finalAvailable :: "jsval \<Rightarrow> error + bool" where
  "finalAvailable item =
     thenE (isAvailable item) (\<lambda>a.
     thenE (isScheduledAvailable item) (\<lambda>s. Inr (a \<and> s)))"

section \<open>The record store of the server\<close>

text \<open>
  \<^verbatim>\<open>server.js\<close> keeps one process-wide \<^verbatim>\<open>cache\<close> object and one \<^verbatim>\<open>fileLocks\<close>
  object; the data live in \<^verbatim>\<open>data.json\<close> and \<^verbatim>\<open>settings.json\<close>. The store below is
  those three together. A file is absent, unreadable (\<^verbatim>\<open>readFile\<close> throws something
  other than \<^verbatim>\<open>ENOENT\<close>), not JSON (\<^verbatim>\<open>JSON.parse\<close> throws), or the text of a value.
\<close>

datatype diskFile = Missing | Unreadable | Malformed | Json jsval

datatype fileType = MenuData | Settings

record store =
  cache_menuData :: jsval
  cache_settings :: jsval
  cache_menuDataTimestamp :: int
  cache_settingsTimestamp :: int
  cache_CACHE_TTL :: int
  cache_maxId :: "jsnum option"
  cache_maxIdTimestamp :: int
  fileLocks :: "fileType \<Rightarrow> bool"
  DATA_FILE :: diskFile
  SETTINGS_FILE :: diskFile

text \<open>
  \<^verbatim>\<open>getMaxId\<close>: the loop reads \<^verbatim>\<open>data[i].id\<close>, which throws on a \<^verbatim>\<open>null\<close> element,
  and converts it with \<^verbatim>\<open>parseInt(...) || 0\<close>.
\<close>

fun getMaxId_loop :: "host \<Rightarrow> jsval list \<Rightarrow> jsnum \<Rightarrow> error + jsnum" where
  "getMaxId_loop h [] maxId = Inr maxId"
| "getMaxId_loop h (x # xs) maxId =
     thenE (getProp x ''id'') (\<lambda>v.
     thenE (parseInt h v) (\<lambda>n.
       let id = orZero n
       in getMaxId_loop h xs (if jsless maxId id then id else maxId)))"

fun getMaxId :: "host \<Rightarrow> jsval \<Rightarrow> error + jsnum" where
  "getMaxId h (JArr xs) = (if length xs = 0 then Inr (Fin 0) else getMaxId_loop h xs (Fin 0))"
| "getMaxId h v = Inr (Fin 0)"

definition acquireLock :: "fileType \<Rightarrow> store \<Rightarrow> bool \<times> store" where
  "acquireLock fileType st =
     (if fileLocks st fileType then (False, st)
      else (True, st\<lparr>fileLocks := (fileLocks st)(fileType := True)\<rparr>))"

definition releaseLock :: "fileType \<Rightarrow> store \<Rightarrow> store" where
  "releaseLock fileType st = st\<lparr>fileLocks := (fileLocks st)(fileType := False)\<rparr>"

text \<open>
  A write runs up to five attempts with timers between them, during which other requests
  run. What they do and what the file system answers is the environment of the call, one
  entry per attempt: what became of the lock flag since this request last looked, whether
  \<^verbatim>\<open>writeFile\<close> or \<^verbatim>\<open>rename\<close> throws, and what \<^verbatim>\<open>Date.now()\<close> reads after the
  rename. The temporary file is never read by the server and is not part of the store.
\<close>

datatype interference = Untouched | Taken | Released

record attempt =
  others :: interference
  writeFile_throws :: bool
  rename_throws :: bool
  clock :: int

fun interfere :: "interference \<Rightarrow> bool \<Rightarrow> bool" where
  "interfere Untouched b = b"
| "interfere Taken b = True"
| "interfere Released b = False"

definition maxRetries :: nat where
  "maxRetries = 5"

text \<open>
  The \<^verbatim>\<open>try\<close> block of one attempt of \<^verbatim>\<open>writeMenuData\<close>. The rename is the point at
  which the file changes; the cache is cleared after it, and \<^verbatim>\<open>getMaxId(data)\<close> runs
  last, still inside the block.
\<close>

definition writeMenuData_try :: "host \<Rightarrow> attempt \<Rightarrow> jsval \<Rightarrow> store \<Rightarrow> (error + unit) \<times> store" where
  "writeMenuData_try h a data st =
     (if \<not> isArray data then (Inl PlainError, st)
      else if writeFile_throws a then (Inl IOError, st)
      else if rename_throws a then (Inl IOError, st)
      else
        let st1 = st\<lparr>DATA_FILE := Json (jsonValue data),
                     cache_menuData := JNull, cache_menuDataTimestamp := 0\<rparr>
        in case getMaxId h data of
             Inl e \<Rightarrow> (Inl e, st1)
           | Inr m \<Rightarrow> (Inr (), st1\<lparr>cache_maxId := Some m, cache_maxIdTimestamp := clock a\<rparr>))"

text \<open>
  One turn of the retry loop: it ends in \<^verbatim>\<open>continue\<close> (left, with the store to go on
  from) or in \<^verbatim>\<open>return\<close> (right, with the result). The interference of the other
  requests comes first, then \<^verbatim>\<open>acquireLock\<close>, the \<^verbatim>\<open>try\<close> block and the
  \<^verbatim>\<open>catch\<close> block, which releases the lock and retries except on the last attempt.
\<close>

definition writeMenuData_attempt ::
  "host \<Rightarrow> attempt \<Rightarrow> jsval \<Rightarrow> nat \<Rightarrow> store \<Rightarrow> store + bool \<times> store" where
  "writeMenuData_attempt h a data attempt st =
     (let st0 = st\<lparr>fileLocks :=
                   (fileLocks st)(MenuData := interfere (others a) (fileLocks st MenuData))\<rparr>
      in case acquireLock MenuData st0 of
           (False, st1) \<Rightarrow> Inl st1
         | (True, st1) \<Rightarrow>
             (case writeMenuData_try h a data st1 of
                (Inr u, st2) \<Rightarrow> Inr (True, releaseLock MenuData st2)
              | (Inl e, st2) \<Rightarrow>
                  if attempt < maxRetries - 1 then Inl (releaseLock MenuData st2)
                  else Inr (False, releaseLock MenuData st2)))"

function writeMenuData_from ::
  "host \<Rightarrow> (nat \<Rightarrow> attempt) \<Rightarrow> jsval \<Rightarrow> nat \<Rightarrow> store \<Rightarrow> bool \<times> store" where
  "writeMenuData_from h env data attempt st =
     (if attempt < maxRetries then
        case writeMenuData_attempt h (env attempt) data attempt st of
          Inl st1 \<Rightarrow> writeMenuData_from h env data (attempt + 1) st1
        | Inr result \<Rightarrow> result
      else (False, st))"
  by pat_completeness auto
termination
  by (relation "measure (\<lambda>(h, env, data, attempt, st). maxRetries - attempt)") auto

definition writeMenuData :: "host \<Rightarrow> (nat \<Rightarrow> attempt) \<Rightarrow> jsval \<Rightarrow> store \<Rightarrow> bool \<times> store" where
  "writeMenuData h env data st = writeMenuData_from h env data 0 st"

text \<open>
  \<^verbatim>\<open>readMenuData\<close>. Besides the value it returns, the result says whether that value is
  the very array the cache holds (the handlers change the array they get in place). The
  environment is that of the write that creates a missing file.
\<close>

definition orEmpty :: "jsval \<Rightarrow> jsval \<times> bool" where
  "orEmpty v = (if truthy v then (v, True) else (JArr [], False))"

definition readMenuData ::
  "host \<Rightarrow> (nat \<Rightarrow> attempt) \<Rightarrow> int \<Rightarrow> store \<Rightarrow> (jsval \<times> bool) \<times> store" where
  "readMenuData h env now st =
     (if truthy (cache_menuData st) \<and> now - cache_menuDataTimestamp st < cache_CACHE_TTL st
      then ((cache_menuData st, True), st)
      else case DATA_FILE st of
        Json parsed \<Rightarrow>
          if \<not> isArray parsed then ((JArr [], False), st)
          else
            let st1 = st\<lparr>cache_menuData := parsed, cache_menuDataTimestamp := now\<rparr>
            in (case getMaxId h parsed of
                  Inr m \<Rightarrow> ((parsed, True), st1\<lparr>cache_maxId := Some m, cache_maxIdTimestamp := now\<rparr>)
                | Inl e \<Rightarrow> (orEmpty (cache_menuData st1), st1))
      | Missing \<Rightarrow> ((JArr [], False), snd (writeMenuData h env (JArr []) st))
      | Unreadable \<Rightarrow> (orEmpty (cache_menuData st), st)
      | Malformed \<Rightarrow> (orEmpty (cache_menuData st), st))"

text \<open>
  An attempt that cannot complete: the lock is held by another request, the data are not
  an array, or \<^verbatim>\<open>writeFile\<close> or \<^verbatim>\<open>rename\<close> throws.
\<close>

definition blocked :: "jsval \<Rightarrow> attempt \<Rightarrow> bool" where
  "blocked data a = (others a = Taken \<or> \<not> isArray data \<or> writeFile_throws a \<or> rename_throws a)"

text \<open>The cache holds \<^verbatim>\<open>null\<close> or an array: true at start, kept by every assignment to it.\<close>

definition cacheOk :: "store \<Rightarrow> bool" where
  "cacheOk st = (cache_menuData st = JNull \<or> isArray (cache_menuData st))"

section \<open>Values for the closed examples\<close>

text \<open>
  The closed examples need one host. None of them reaches it: every value they convert
  is a small integer, a string converted to a string, or a boolean.
\<close>

definition exampleHost :: host where
  "exampleHost = \<lparr>numberToString = (\<lambda>r. []), stringToInt = (\<lambda>s. NaN), stringToFloat = (\<lambda>s. NaN)\<rparr>"

text \<open>An environment in which nothing interferes and nothing fails.\<close>

definition calm :: "int \<Rightarrow> nat \<Rightarrow> attempt" where
  "calm t k = \<lparr>others = Untouched, writeFile_throws = False, rename_throws = False, clock = t\<rparr>"

text \<open>The store of a process that has just started, as the initialisers of \<^verbatim>\<open>cache\<close> and \<^verbatim>\<open>fileLocks\<close> leave it.\<close>

definition newStore :: "int \<Rightarrow> diskFile \<Rightarrow> diskFile \<Rightarrow> store" where
  "newStore ttl dataFile settingsFile =
     \<lparr>cache_menuData = JNull, cache_settings = JNull, cache_menuDataTimestamp = 0,
      cache_settingsTimestamp = 0, cache_CACHE_TTL = ttl, cache_maxId = None,
      cache_maxIdTimestamp = 0, fileLocks = (\<lambda>fileType. False),
      DATA_FILE = dataFile, SETTINGS_FILE = settingsFile\<rparr>"

section \<open>The settings route\<close>

text \<open>
  String operations on code units below 256. \<^verbatim>\<open>trim\<close> removes white space and line
  terminators from both ends (tab, line feed, vertical tab, form feed, carriage return,
  space, no-break space); \<^verbatim>\<open>toLowerCase\<close> maps \<^verbatim>\<open>A\<close>-\<^verbatim>\<open>Z\<close> and the upper-case
  letters of Latin-1 to their lower-case forms.
\<close>

definition isSpace :: "char \<Rightarrow> bool" where
  "isSpace c = (of_char c \<in> {9, 10, 11, 12, 13, 32, 160 :: nat})"

definition trim :: "string \<Rightarrow> string" where
  "trim s = rev (dropWhile isSpace (rev (dropWhile isSpace s)))"

definition lowerChar :: "char \<Rightarrow> char" where
  "lowerChar c =
     (let n = (of_char c :: nat)
      in if (65 \<le> n \<and> n \<le> 90) \<or> (192 \<le> n \<and> n \<le> 222 \<and> n \<noteq> 215)
         then char_of (n + 32) else c)"

definition toLowerCase :: "string \<Rightarrow> string" where
  "toLowerCase s = map lowerChar s"

text \<open>\<^verbatim>\<open>/^#[0-9A-F]{6}$/i\<close>\<close>

definition isHex :: "char \<Rightarrow> bool" where
  "isHex c =
     (let n = (of_char c :: nat)
      in (48 \<le> n \<and> n \<le> 57) \<or> (65 \<le> n \<and> n \<le> 70) \<or> (97 \<le> n \<and> n \<le> 102))"

fun colorRegex :: "string \<Rightarrow> bool" where
  "colorRegex [] = False"
| "colorRegex (c # cs) = (c = CHR ''#'' \<and> length cs = 6 \<and> list_all isHex cs)"

record filterCategory =
  category :: string
  label :: string
  enabled :: bool

record settings =
  primaryColor :: string
  secondaryColor :: string
  textColor :: string
  accentColor :: string
  headingFontSize :: jsnum
  itemNameSize :: jsnum
  descriptionSize :: jsnum
  priceSize :: jsnum
  cardOpacity :: jsnum
  gridGap :: jsnum
  filterCategories :: "filterCategory list"

definition getDefaultFilterCategories :: "filterCategory list" where
  "getDefaultFilterCategories =
     [\<lparr>category = ''starters'', label = ''Starters'', enabled = True\<rparr>,
      \<lparr>category = ''lorem ipsum'', label = ''Lorem Ipsum'', enabled = True\<rparr>,
      \<lparr>category = ''chicken burgers'', label = ''Chicken Burgers'', enabled = True\<rparr>,
      \<lparr>category = ''fries'', label = ''Fries'', enabled = True\<rparr>,
      \<lparr>category = ''dessert'', label = ''Dessert'', enabled = True\<rparr>,
      \<lparr>category = ''drinks'', label = ''Drinks'', enabled = True\<rparr>,
      \<lparr>category = ''add ons'', label = ''Add Ons'', enabled = True\<rparr>,
      \<lparr>category = ''dips'', label = ''Dips'', enabled = True\<rparr>]"

text \<open>
  The three stages of the \<^verbatim>\<open>filterCategories\<close> pipeline of \<^verbatim>\<open>PUT /api/settings\<close>:
  \<^verbatim>\<open>.filter((f) => f && f.category && f.label)\<close>, the \<^verbatim>\<open>.map\<close> that builds the stored
  entry with \<^verbatim>\<open>String(...).trim().toLowerCase()\<close>, and the final \<^verbatim>\<open>.filter\<close> on
  emptiness and length. A callback that throws ends the pipeline.
\<close>

definition rawEntryOk :: "jsval \<Rightarrow> error + bool" where
  "rawEntryOk f =
     (if \<not> truthy f then Inr False
      else thenE (getProp f ''category'') (\<lambda>c.
           if \<not> truthy c then Inr False
           else thenE (getProp f ''label'') (\<lambda>l. Inr (truthy l))))"

fun filterE :: "('a \<Rightarrow> error + bool) \<Rightarrow> 'a list \<Rightarrow> error + 'a list" where
  "filterE p [] = Inr []"
| "filterE p (x # xs) =
     thenE (p x) (\<lambda>keep. thenE (filterE p xs) (\<lambda>ys. Inr (if keep then x # ys else ys)))"

definition toEntry :: "host \<Rightarrow> jsval \<Rightarrow> error + filterCategory" where
  "toEntry h f =
     thenE (getProp f ''category'') (\<lambda>c.
     thenE (ToString h c) (\<lambda>cs.
     thenE (getProp f ''label'') (\<lambda>l.
     thenE (ToString h l) (\<lambda>ls.
     thenE (getProp f ''enabled'') (\<lambda>e.
       Inr \<lparr>category = toLowerCase (trim cs), label = trim ls, enabled = truthy e\<rparr>)))))"

definition entryOk :: "filterCategory \<Rightarrow> bool" where
  "entryOk f =
     (category f \<noteq> [] \<and> label f \<noteq> [] \<and> length (category f) \<le> 100 \<and> length (label f) \<le> 100)"

definition normalizeFilterCategories :: "host \<Rightarrow> jsval \<Rightarrow> error + filterCategory list" where
  "normalizeFilterCategories h settings =
     thenE (getProp settings ''filterCategories'') (\<lambda>fc.
       case fc of
         JArr fs \<Rightarrow>
           thenE (filterE rawEntryOk fs) (\<lambda>kept.
           thenE (sequenceE (map (toEntry h) kept)) (\<lambda>entries.
             Inr (filter entryOk entries)))
       | _ \<Rightarrow> Inr getDefaultFilterCategories)"

text \<open>The two local helpers of the route.\<close>

fun validateColor :: "jsval \<Rightarrow> string \<Rightarrow> string" where
  "validateColor (JStr s) defaultColor = (if s \<noteq> [] \<and> colorRegex s then s else defaultColor)"
| "validateColor color defaultColor = defaultColor"

fun jsmin :: "jsnum \<Rightarrow> jsnum \<Rightarrow> jsnum" where
  "jsmin NaN b = NaN"
| "jsmin a NaN = NaN"
| "jsmin a b = (if jsless b a then b else a)"

fun jsmax :: "jsnum \<Rightarrow> jsnum \<Rightarrow> jsnum" where
  "jsmax NaN b = NaN"
| "jsmax a NaN = NaN"
| "jsmax a b = (if jsless a b then b else a)"

definition clamp :: "host \<Rightarrow> jsval \<Rightarrow> real \<Rightarrow> real \<Rightarrow> real \<Rightarrow> error + jsnum" where
  "clamp h v lo hi defaultValue =
     thenE (parseFloat h v) (\<lambda>num.
       if num = NaN then Inr (Fin defaultValue)
       else Inr (jsmax (Fin lo) (jsmin (Fin hi) num)))"

text \<open>
  \<^verbatim>\<open>validSettings\<close>, in the order in which the route evaluates it: the categories, then
  the four colours, then the six numbers.
\<close>

definition color :: "jsval \<Rightarrow> string \<Rightarrow> string \<Rightarrow> error + string" where
  "color settings k defaultColor = thenE (getProp settings k) (\<lambda>c. Inr (validateColor c defaultColor))"

definition knob :: "host \<Rightarrow> jsval \<Rightarrow> string \<Rightarrow> real \<Rightarrow> real \<Rightarrow> real \<Rightarrow> error + jsnum" where
  "knob h settings k lo hi defaultValue =
     thenE (getProp settings k) (\<lambda>v. clamp h v lo hi defaultValue)"

definition validSettings :: "host \<Rightarrow> jsval \<Rightarrow> error + settings" where
  "validSettings h body =
     thenE (normalizeFilterCategories h body) (\<lambda>fc.
     thenE (color body ''primaryColor'' ''#0d3b2e'') (\<lambda>c1.
     thenE (color body ''secondaryColor'' ''#1a5c4a'') (\<lambda>c2.
     thenE (color body ''textColor'' ''#ffffff'') (\<lambda>c3.
     thenE (color body ''accentColor'' ''#ffd700'') (\<lambda>c4.
     thenE (knob h body ''headingFontSize'' 2 8 4) (\<lambda>k1.
     thenE (knob h body ''itemNameSize'' 1 3 1.8) (\<lambda>k2.
     thenE (knob h body ''descriptionSize'' 0.7 1.5 0.95) (\<lambda>k3.
     thenE (knob h body ''priceSize'' 1 3 1.5) (\<lambda>k4.
     thenE (knob h body ''cardOpacity'' 0 1 0.05) (\<lambda>k5.
     thenE (knob h body ''gridGap'' 0.5 5 2) (\<lambda>k6.
       Inr \<lparr>primaryColor = c1, secondaryColor = c2, textColor = c3, accentColor = c4,
            headingFontSize = k1, itemNameSize = k2, descriptionSize = k3, priceSize = k4,
            cardOpacity = k5, gridGap = k6, filterCategories = fc\<rparr>)))))))))))"

text \<open>The object that \<^verbatim>\<open>writeSettings\<close> receives, as a value.\<close>

definition entryValue :: "filterCategory \<Rightarrow> jsval" where
  "entryValue f =
     JObj [(''category'', JStr (category f)), (''label'', JStr (label f)),
           (''enabled'', JBool (enabled f))]"

definition settingsValue :: "settings \<Rightarrow> jsval" where
  "settingsValue s =
     JObj [(''primaryColor'', JStr (primaryColor s)),
           (''secondaryColor'', JStr (secondaryColor s)),
           (''textColor'', JStr (textColor s)),
           (''accentColor'', JStr (accentColor s)),
           (''headingFontSize'', JNum (headingFontSize s)),
           (''itemNameSize'', JNum (itemNameSize s)),
           (''descriptionSize'', JNum (descriptionSize s)),
           (''priceSize'', JNum (priceSize s)),
           (''cardOpacity'', JNum (cardOpacity s)),
           (''gridGap'', JNum (gridGap s)),
           (''filterCategories'', JArr (map entryValue (filterCategories s)))]"

text \<open>
  \<^verbatim>\<open>writeSettings\<close> has the shape of \<^verbatim>\<open>writeMenuData\<close>, with its own lock, file and
  cache fields and no maximum id.
\<close>

fun isObjectLike :: "jsval \<Rightarrow> bool" where
  "isObjectLike (JObj kvs) = True"
| "isObjectLike (JArr xs) = True"
| "isObjectLike v = False"

definition writeSettings_try :: "attempt \<Rightarrow> jsval \<Rightarrow> store \<Rightarrow> (error + unit) \<times> store" where
  "writeSettings_try a data st =
     (if \<not> isObjectLike data then (Inl PlainError, st)
      else if writeFile_throws a then (Inl IOError, st)
      else if rename_throws a then (Inl IOError, st)
      else (Inr (), st\<lparr>SETTINGS_FILE := Json (jsonValue data),
                        cache_settings := JNull, cache_settingsTimestamp := 0\<rparr>))"

definition writeSettings_attempt :: "attempt \<Rightarrow> jsval \<Rightarrow> nat \<Rightarrow> store \<Rightarrow> store + bool \<times> store" where
  "writeSettings_attempt a data attempt st =
     (let st0 = st\<lparr>fileLocks :=
                   (fileLocks st)(Settings := interfere (others a) (fileLocks st Settings))\<rparr>
      in case acquireLock Settings st0 of
           (False, st1) \<Rightarrow> Inl st1
         | (True, st1) \<Rightarrow>
             (case writeSettings_try a data st1 of
                (Inr u, st2) \<Rightarrow> Inr (True, releaseLock Settings st2)
              | (Inl e, st2) \<Rightarrow>
                  if attempt < maxRetries - 1 then Inl (releaseLock Settings st2)
                  else Inr (False, releaseLock Settings st2)))"

function writeSettings_from :: "(nat \<Rightarrow> attempt) \<Rightarrow> jsval \<Rightarrow> nat \<Rightarrow> store \<Rightarrow> bool \<times> store" where
  "writeSettings_from env data attempt st =
     (if attempt < maxRetries then
        case writeSettings_attempt (env attempt) data attempt st of
          Inl st1 \<Rightarrow> writeSettings_from env data (attempt + 1) st1
        | Inr result \<Rightarrow> result
      else (False, st))"
  by pat_completeness auto
termination
  by (relation "measure (\<lambda>(env, data, attempt, st). maxRetries - attempt)") auto

definition writeSettings :: "(nat \<Rightarrow> attempt) \<Rightarrow> jsval \<Rightarrow> store \<Rightarrow> bool \<times> store" where
  "writeSettings env data st = writeSettings_from env data 0 st"

text \<open>
  The answers of the routes, as far as this theory tells them apart, and the body of
  \<^verbatim>\<open>PUT /api/settings\<close> after \<^verbatim>\<open>requireAuth\<close> and \<^verbatim>\<open>csrfProtection\<close> have let the
  request through. Whatever is thrown inside the route is passed to \<^verbatim>\<open>next(error)\<close> and
  answered by \<^verbatim>\<open>errorHandler\<close> with status 500.
\<close>

datatype response =
    ItemCreated jsval
  | ItemUpdated jsval
  | ItemDeleted
  | SettingsSaved settings
  | BadRequest
  | NotFound
  | SaveFailed
  | Thrown error

definition putSettings :: "host \<Rightarrow> (nat \<Rightarrow> attempt) \<Rightarrow> jsval \<Rightarrow> store \<Rightarrow> response \<times> store" where
  "putSettings h env body st =
     (case validSettings h body of
        Inl e \<Rightarrow> (Thrown e, st)
      | Inr s \<Rightarrow>
          (case writeSettings env (settingsValue s) st of
             (True, st1) \<Rightarrow> (SettingsSaved s, st1)
           | (False, st1) \<Rightarrow> (SaveFailed, st1)))"

text \<open>
  What is expected of the settings the route builds and saves, written on the request body
  itself and without the helpers of the route. \<open>field\<close> is the property read on a value
  that is neither \<^verbatim>\<open>null\<close> nor \<^verbatim>\<open>undefined\<close>, where it cannot throw; \<open>textOf\<close> is
  \<^verbatim>\<open>String(v)\<close> where that returns.

  A number: the default when \<^verbatim>\<open>parseFloat\<close> gives \<^verbatim>\<open>NaN\<close>, the lower bound when the
  number is below it, the upper bound when it is above, the number itself otherwise. A
  colour: the submitted string when it matches the pattern, the default otherwise.

  A category entry: a submitted entry passes when its \<^verbatim>\<open>category\<close> and \<^verbatim>\<open>label\<close> are
  truthy and, trimmed, are not empty and not longer than 100; it is stored with the
  category trimmed and in lower case, the label trimmed, and \<^verbatim>\<open>enabled\<close> as a boolean.
\<close>

fun field :: "jsval \<Rightarrow> string \<Rightarrow> jsval" where
  "field (JObj kvs) k = (case map_of kvs k of None \<Rightarrow> JUndefined | Some v \<Rightarrow> v)"
| "field v k = JUndefined"

definition textOf :: "host \<Rightarrow> jsval \<Rightarrow> string" where
  "textOf h v = (case ToString h v of Inr s \<Rightarrow> s | Inl e \<Rightarrow> [])"

fun clamped :: "real \<Rightarrow> real \<Rightarrow> real \<Rightarrow> jsnum \<Rightarrow> jsnum" where
  "clamped lo hi d NaN = Fin d"
| "clamped lo hi d NegInf = Fin lo"
| "clamped lo hi d PosInf = Fin hi"
| "clamped lo hi d (Fin r) = Fin (if r < lo then lo else if hi < r then hi else r)"

fun keptColor :: "jsval \<Rightarrow> string \<Rightarrow> string" where
  "keptColor (JStr c) d = (if colorRegex c then c else d)"
| "keptColor v d = d"

definition keyOf :: "host \<Rightarrow> jsval \<Rightarrow> string" where
  "keyOf h f = toLowerCase (trim (textOf h (field f ''category'')))"

definition labelOf :: "host \<Rightarrow> jsval \<Rightarrow> string" where
  "labelOf h f = trim (textOf h (field f ''label''))"

definition passes :: "host \<Rightarrow> jsval \<Rightarrow> bool" where
  "passes h f =
     (truthy (field f ''category'') \<and> truthy (field f ''label'')
      \<and> keyOf h f \<noteq> [] \<and> length (keyOf h f) \<le> 100
      \<and> labelOf h f \<noteq> [] \<and> length (labelOf h f) \<le> 100)"

definition storedEntry :: "host \<Rightarrow> jsval \<Rightarrow> filterCategory" where
  "storedEntry h f =
     \<lparr>category = keyOf h f, label = labelOf h f, enabled = truthy (field f ''enabled'')\<rparr>"

text \<open>
  A body \<open>converts\<close> when the category pipeline and the six \<^verbatim>\<open>clamp\<close> calls run
  without a conversion that throws. Every value that is not an array or an object
  converts.
\<close>

fun isOk :: "error + 'a \<Rightarrow> bool" where
  "isOk (Inr x) = True"
| "isOk (Inl e) = False"

definition knobs :: "(string \<times> real \<times> real \<times> real) list" where
  "knobs = [(''headingFontSize'', 2, 8, 4), (''itemNameSize'', 1, 3, 1.8),
            (''descriptionSize'', 0.7, 1.5, 0.95), (''priceSize'', 1, 3, 1.5),
            (''cardOpacity'', 0, 1, 0.05), (''gridGap'', 0.5, 5, 2)]"

definition converts :: "host \<Rightarrow> jsval \<Rightarrow> bool" where
  "converts h body =
     (isOk (normalizeFilterCategories h body)
      \<and> list_all (\<lambda>(k, lo, hi, d). isOk (knob h body k lo hi d)) knobs)"

fun primitive :: "jsval \<Rightarrow> bool" where
  "primitive (JArr xs) = False"
| "primitive (JObj kvs) = False"
| "primitive v = True"

text \<open>A number within two bounds; a colour that is the default or a match of the pattern.\<close>

definition inRange :: "real \<Rightarrow> real \<Rightarrow> jsnum \<Rightarrow> bool" where
  "inRange lo hi n = (case n of Fin r \<Rightarrow> lo \<le> r \<and> r \<le> hi | _ \<Rightarrow> False)"

definition colorOk :: "string \<Rightarrow> string \<Rightarrow> bool" where
  "colorOk defaultColor c = (c = defaultColor \<or> colorRegex c)"

section \<open>The routes of the server\<close>

text \<open>
  The routes \<^verbatim>\<open>server.js\<close> registers, in order, with the path as its list of segments
  (the pieces between the slashes, after the first). A request that no route answers
  reaches the last middleware, which responds with status 404 and \<^verbatim>\<open>Route not found\<close>
  and has no access to the store. \<^verbatim>\<open>app.get\<close> also answers \<^verbatim>\<open>HEAD\<close>. The application
  sets neither \<^verbatim>\<open>case sensitive routing\<close> nor \<^verbatim>\<open>strict routing\<close>, so a literal segment
  matches whatever the case of its letters, and one slash at the end of the path is
  allowed. The static file middleware, which runs before the routes and only answers
  \<^verbatim>\<open>GET\<close> and \<^verbatim>\<open>HEAD\<close>, is not part of the table.
\<close>

datatype verb = GET | HEAD | POST | PUT | PATCH | DELETE

datatype segment = Lit string | Param

datatype route =
    AuthLogin | AuthLogout | AuthStatus
  | MenuList | MenuCreate | MenuUpdate | MenuDelete | MenuExport | MenuImport
  | DataJson | SettingsGet | SettingsPut | Health

definition routes :: "(verb \<times> segment list \<times> route) list" where
  "routes =
     [(POST, [Lit ''api'', Lit ''auth'', Lit ''login''], AuthLogin),
      (POST, [Lit ''api'', Lit ''auth'', Lit ''logout''], AuthLogout),
      (GET, [Lit ''api'', Lit ''auth'', Lit ''status''], AuthStatus),
      (GET, [Lit ''api'', Lit ''menu''], MenuList),
      (POST, [Lit ''api'', Lit ''menu''], MenuCreate),
      (PUT, [Lit ''api'', Lit ''menu'', Param], MenuUpdate),
      (DELETE, [Lit ''api'', Lit ''menu'', Param], MenuDelete),
      (GET, [Lit ''api'', Lit ''menu'', Lit ''export''], MenuExport),
      (POST, [Lit ''api'', Lit ''menu'', Lit ''import''], MenuImport),
      (GET, [Lit ''data.json''], DataJson),
      (GET, [Lit ''api'', Lit ''settings''], SettingsGet),
      (PUT, [Lit ''api'', Lit ''settings''], SettingsPut),
      (GET, [Lit ''health''], Health)]"

fun segmentMatches :: "segment \<Rightarrow> string \<Rightarrow> bool" where
  "segmentMatches (Lit s) t = (toLowerCase s = toLowerCase t)"
| "segmentMatches Param t = (t \<noteq> [])"

fun pathMatches :: "segment list \<Rightarrow> string list \<Rightarrow> bool" where
  "pathMatches [] ts = (ts = [] \<or> ts = [[]])"
| "pathMatches (p # ps) (t # ts) = (segmentMatches p t \<and> pathMatches ps ts)"
| "pathMatches (p # ps) [] = False"

fun verbMatches :: "verb \<Rightarrow> verb \<Rightarrow> bool" where
  "verbMatches GET HEAD = True"
| "verbMatches registered v = (registered = v)"

definition dispatch :: "verb \<Rightarrow> string list \<Rightarrow> route option" where
  "dispatch v path =
     map_option (\<lambda>(registered, pattern, r). r)
       (find (\<lambda>(registered, pattern, r). verbMatches registered v \<and> pathMatches pattern path) routes)"

section \<open>The schedule evaluator\<close>

text \<open>
  Modelled from the spec: the function \<^verbatim>\<open>evaluate(schedule, now)\<close> of section 4.1. The
  repository has no code that evaluates a schedule: the admin form only builds the
  \<^verbatim>\<open>schedule\<close> object and the public renderer only reads a ready-made
  \<^verbatim>\<open>item.scheduleAvailability\<close>. The definitions below follow the five steps of the
  spec. An instant is a day (counted from some Sunday) and a minute of that day, a time
  \<^verbatim>\<open>HH:MM\<close> is its minute of the day, an empty \<^verbatim>\<open>days\<close> list means that no days are
  given. The next opening after a failed time check is the start time on the first
  following day that matches \<^verbatim>\<open>days\<close>, provided the date range has not ended by then.
\<close>

record instant =
  day :: int
  minute :: nat

record schedule =
  days :: "nat list"
  timeRange :: "(nat \<times> nat) option"
  dateRange :: "(int option \<times> int option) option"

record scheduleAvailability =
  sa_isAvailable :: bool
  sa_reason :: "string option"
  sa_nextAvailable :: "instant option"

definition hhmm :: "nat \<Rightarrow> nat \<Rightarrow> nat" where
  "hhmm h m = h * 60 + m"

definition weekday :: "int \<Rightarrow> nat" where
  "weekday d = nat (d mod 7)"

definition dayMatches :: "schedule \<Rightarrow> int \<Rightarrow> bool" where
  "dayMatches s d = (if days s = [] then True else weekday d \<in> set (days s))"

definition beforeStart :: "schedule \<Rightarrow> int \<Rightarrow> bool" where
  "beforeStart s d = (case dateRange s of Some (Some a, b) \<Rightarrow> d < a | _ \<Rightarrow> False)"

definition afterEnd :: "schedule \<Rightarrow> int \<Rightarrow> bool" where
  "afterEnd s d = (case dateRange s of Some (a, Some b) \<Rightarrow> b < d | _ \<Rightarrow> False)"

definition startMinute :: "schedule \<Rightarrow> nat" where
  "startMinute s = (case timeRange s of Some (a, b) \<Rightarrow> a | None \<Rightarrow> 0)"

definition firstMatchingDay :: "schedule \<Rightarrow> int \<Rightarrow> int option" where
  "firstMatchingDay s d = find (dayMatches s) (map (\<lambda>k. d + int k) [0..<7])"

definition opensOn :: "schedule \<Rightarrow> int option \<Rightarrow> instant option" where
  "opensOn s d =
     (case d of
        None \<Rightarrow> None
      | Some d' \<Rightarrow> if afterEnd s d' then None else Some \<lparr>day = d', minute = startMinute s\<rparr>)"

definition available :: scheduleAvailability where
  "available = \<lparr>sa_isAvailable = True, sa_reason = None, sa_nextAvailable = None\<rparr>"

definition unavailable :: "string \<Rightarrow> instant option \<Rightarrow> scheduleAvailability" where
  "unavailable why next = \<lparr>sa_isAvailable = False, sa_reason = Some why, sa_nextAvailable = next\<rparr>"

text \<open>
  Modelled from the spec: \<^verbatim>\<open>evaluate\<close>, absent from the repository. Step 1 is the empty
  schedule, step 2 the day check, step 3 the date range (before its start, after its end),
  step 4 the time window with both bounds included; the first check that fails gives the
  reason and the next opening.
\<close>

definition evaluate :: "schedule option \<Rightarrow> instant \<Rightarrow> scheduleAvailability" where
  "evaluate sched now =
     (case sched of
        None \<Rightarrow> available
      | Some s \<Rightarrow>
          if days s = [] \<and> timeRange s = None \<and> dateRange s = None then available
          else if \<not> dayMatches s (day now) then
            unavailable ''not available today''
              (map_option (\<lambda>d. \<lparr>day = d, minute = startMinute s\<rparr>) (firstMatchingDay s (day now + 1)))
          else if beforeStart s (day now) then
            unavailable ''not yet available''
              (case dateRange s of
                 Some (Some a, b) \<Rightarrow> opensOn s (firstMatchingDay s a)
               | _ \<Rightarrow> None)
          else if afterEnd s (day now) then unavailable ''expired'' None
          else
            (case timeRange s of
               None \<Rightarrow> available
             | Some (a, b) \<Rightarrow>
                 if a \<le> minute now \<and> minute now \<le> b then available
                 else if minute now < a then
                   unavailable ''outside hours'' (Some \<lparr>day = day now, minute = a\<rparr>)
                 else
                   unavailable ''outside hours'' (opensOn s (firstMatchingDay s (day now + 1)))))"

section \<open>The menu routes\<close>

text \<open>
  The bodies of \<^verbatim>\<open>POST /api/menu\<close>, \<^verbatim>\<open>PUT /api/menu/:id\<close> and
  \<^verbatim>\<open>DELETE /api/menu/:id\<close>, after \<^verbatim>\<open>requireAuth\<close> and \<^verbatim>\<open>csrfProtection\<close>. A request
  carries the properties the route has built from the body with \<^verbatim>\<open>sanitizeString\<close> and
  \<^verbatim>\<open>parseFloat\<close> (in the order of the object literal), the id parsed from the path, and
  its environment: the two clock readings and the environments of the two writes it can
  make. \<^verbatim>\<open>validateMenuItem\<close>, whose checks are on sizes and formats of those properties,
  is a parameter.
\<close>

record reqEnv =
  readClock :: int
  heal :: "nat \<Rightarrow> attempt"
  handlerClock :: int
  save :: "nat \<Rightarrow> attempt"

datatype request =
    PostMenu reqEnv "(string \<times> jsval) list"
  | PutMenu reqEnv jsnum "(string \<times> jsval) list" "jsval option"
  | DeleteMenu reqEnv jsnum

text \<open>The assignment \<^verbatim>\<open>o.k = v\<close> on the properties of an object.\<close>

definition setProp :: "(string \<times> jsval) list \<Rightarrow> string \<Rightarrow> jsval \<Rightarrow> (string \<times> jsval) list" where
  "setProp kvs k v =
     (if k \<in> fst ` set kvs then map (\<lambda>(k', v'). (k', if k' = k then v else v')) kvs
      else kvs @ [(k, v)])"

text \<open>
  The cached maximum id if there is one and it is recent, else \<^verbatim>\<open>getMaxId(menuData)\<close>,
  which is then cached.
\<close>

definition currentMaxId :: "host \<Rightarrow> int \<Rightarrow> jsval \<Rightarrow> store \<Rightarrow> error + jsnum \<times> store" where
  "currentMaxId h now menuData st =
     (let refresh = thenE (getMaxId h menuData) (\<lambda>m.
            Inr (m, st\<lparr>cache_maxId := Some m, cache_maxIdTimestamp := now\<rparr>))
      in case cache_maxId st of
           None \<Rightarrow> refresh
         | Some maxId \<Rightarrow>
             if now - cache_maxIdTimestamp st > cache_CACHE_TTL st then refresh
             else Inr (maxId, st))"

text \<open>
  \<^verbatim>\<open>menuData.push(newItem)\<close> and \<^verbatim>\<open>menuData[itemIndex] = updatedItem\<close> change the array
  in place: when it is the array the cache holds, the cache holds the changed array.
\<close>

definition inPlace :: "bool \<Rightarrow> jsval \<Rightarrow> store \<Rightarrow> store" where
  "inPlace shared menuData st = (if shared then st\<lparr>cache_menuData := menuData\<rparr> else st)"

definition postMenu ::
  "host \<Rightarrow> (jsval \<Rightarrow> bool) \<Rightarrow> reqEnv \<Rightarrow> (string \<times> jsval) list \<Rightarrow> store \<Rightarrow> response \<times> store" where
  "postMenu h validateMenuItem env newItem st =
     (if \<not> validateMenuItem (JObj newItem) then (BadRequest, st)
      else
        case readMenuData h (heal env) (readClock env) st of
          ((JArr items, shared), st1) \<Rightarrow>
            (case currentMaxId h (handlerClock env) (JArr items) st1 of
               Inl e \<Rightarrow> (Thrown e, st1)
             | Inr (maxId, st2) \<Rightarrow>
                 let newId = jsplus1 maxId;
                     item = JObj (setProp newItem ''id'' (JNum newId));
                     menuData = JArr (items @ [item])
                 in case writeMenuData h (save env) menuData (inPlace shared menuData st2) of
                      (True, st3) \<Rightarrow> (ItemCreated item, st3)
                    | (False, st3) \<Rightarrow> (SaveFailed, st3))
        | ((v, shared), st1) \<Rightarrow> (Thrown TypeError, st1))"

text \<open>\<^verbatim>\<open>isNaN(itemId) || itemId <= 0\<close>\<close>

fun invalidId :: "jsnum \<Rightarrow> bool" where
  "invalidId NaN = True"
| "invalidId NegInf = True"
| "invalidId (Fin r) = (r \<le> 0)"
| "invalidId PosInf = False"

text \<open>
  \<^verbatim>\<open>findIndex((item) => item.id === itemId)\<close>, for a number \<^verbatim>\<open>itemId\<close> that is not
  \<^verbatim>\<open>NaN\<close>; \<^verbatim>\<open>find\<close> with the same callback returns the element at that index or
  \<^verbatim>\<open>undefined\<close>. And \<^verbatim>\<open>filter((item) => item.id !== itemId)\<close>.
\<close>

fun findIndex :: "jsval list \<Rightarrow> jsnum \<Rightarrow> error + nat option" where
  "findIndex [] itemId = Inr None"
| "findIndex (x # xs) itemId =
     thenE (getProp x ''id'') (\<lambda>v.
       if v = JNum itemId then Inr (Some 0)
       else thenE (findIndex xs itemId) (\<lambda>r. Inr (map_option Suc r)))"

definition otherIds :: "jsval list \<Rightarrow> jsnum \<Rightarrow> error + jsval list" where
  "otherIds xs itemId = filterE (\<lambda>x. thenE (getProp x ''id'') (\<lambda>v. Inr (v \<noteq> JNum itemId))) xs"

text \<open>\<^verbatim>\<open>image !== undefined ? image : existingItem?.image || null\<close>, the image given as built by the route.\<close>

definition stickyImage :: "jsval option \<Rightarrow> jsval \<Rightarrow> error + jsval" where
  "stickyImage givenImage existingItem =
     (case givenImage of
        Some v \<Rightarrow> Inr v
      | None \<Rightarrow>
          if existingItem = JUndefined \<or> existingItem = JNull then Inr JNull
          else thenE (getProp existingItem ''image'') (\<lambda>v. Inr (if truthy v then v else JNull)))"

definition putMenu ::
  "host \<Rightarrow> (jsval \<Rightarrow> bool) \<Rightarrow> reqEnv \<Rightarrow> jsnum \<Rightarrow> (string \<times> jsval) list \<Rightarrow> jsval option
     \<Rightarrow> store \<Rightarrow> response \<times> store" where
  "putMenu h validateMenuItem env itemId props givenImage st =
     (if invalidId itemId then (BadRequest, st)
      else
        case readMenuData h (heal env) (readClock env) st of
          ((JArr items, shared), st1) \<Rightarrow>
            (case findIndex items itemId of
               Inl e \<Rightarrow> (Thrown e, st1)
             | Inr itemIndex \<Rightarrow>
                 let existingItem = (case itemIndex of None \<Rightarrow> JUndefined | Some i \<Rightarrow> items ! i)
                 in case stickyImage givenImage existingItem of
                      Inl e \<Rightarrow> (Thrown e, st1)
                    | Inr img \<Rightarrow>
                        let updatedItem = props @ [(''image'', img)]
                        in if \<not> validateMenuItem (JObj updatedItem) then (BadRequest, st1)
                           else
                             (case itemIndex of
                                None \<Rightarrow> (NotFound, st1)
                              | Some i \<Rightarrow>
                                  let item = JObj (setProp updatedItem ''id'' (JNum itemId));
                                      menuData = JArr (items[i := item])
                                  in case writeMenuData h (save env) menuData
                                            (inPlace shared menuData st1) of
                                       (True, st2) \<Rightarrow> (ItemUpdated item, st2)
                                     | (False, st2) \<Rightarrow> (SaveFailed, st2)))
        | ((v, shared), st1) \<Rightarrow> (Thrown TypeError, st1))"

definition deleteMenu :: "host \<Rightarrow> reqEnv \<Rightarrow> jsnum \<Rightarrow> store \<Rightarrow> response \<times> store" where
  "deleteMenu h env itemId st =
     (if invalidId itemId then (BadRequest, st)
      else
        case readMenuData h (heal env) (readClock env) st of
          ((JArr items, shared), st1) \<Rightarrow>
            (case otherIds items itemId of
               Inl e \<Rightarrow> (Thrown e, st1)
             | Inr filteredData \<Rightarrow>
                 if length filteredData = length items then (NotFound, st1)
                 else
                   (case writeMenuData h (save env) (JArr filteredData) st1 of
                      (True, st2) \<Rightarrow> (ItemDeleted, st2)
                    | (False, st2) \<Rightarrow> (SaveFailed, st2)))
        | ((v, shared), st1) \<Rightarrow> (Thrown TypeError, st1))"

fun handle :: "host \<Rightarrow> (jsval \<Rightarrow> bool) \<Rightarrow> request \<Rightarrow> store \<Rightarrow> response \<times> store" where
  "handle h validateMenuItem (PostMenu env newItem) st = postMenu h validateMenuItem env newItem st"
| "handle h validateMenuItem (PutMenu env itemId props givenImage) st =
     putMenu h validateMenuItem env itemId props givenImage st"
| "handle h validateMenuItem (DeleteMenu env itemId) st = deleteMenu h env itemId st"

text \<open>Requests answered one after the other, each to completion.\<close>

fun run :: "host \<Rightarrow> (jsval \<Rightarrow> bool) \<Rightarrow> request list \<Rightarrow> store \<Rightarrow> response list \<times> store" where
  "run h validateMenuItem [] st = ([], st)"
| "run h validateMenuItem (req # reqs) st =
     (case handle h validateMenuItem req st of
        (answer, st1) \<Rightarrow>
          (case run h validateMenuItem reqs st1 of
             (answers, st2) \<Rightarrow> (answer # answers, st2)))"

text \<open>
  Two example request environments, in which every clock reads \<open>t\<close>. In the first nothing
  interferes or fails. In the second the write of the route finds the lock held by another
  request at its first attempt, finds it released at the second, where the rename fails, and
  goes through at the third.
\<close>

definition calmReq :: "int \<Rightarrow> reqEnv" where
  "calmReq t = \<lparr>readClock = t, heal = calm t, handlerClock = t, save = calm t\<rparr>"



section \<open>Runs in which every request is saved\<close>








section \<open>Properties of the addition\<close>

lemma halfEven_int: "halfEven (of_int z) = z"
  by (simp add: halfEven_def)

lemma floor_scaled: "\<lfloor>\<bar>real_of_int k\<bar> * 2 ^ n\<rfloor> = \<bar>k\<bar> * 2 ^ n"
proof -
  have "\<bar>real_of_int k\<bar> * 2 ^ n = of_int (\<bar>k\<bar> * 2 ^ n)"
    by simp
  then show ?thesis
    by (simp only: floor_of_int)
qed

lemma ulp_int:
  assumes "k \<noteq> 0"
  shows "ulp (of_int k) = 2 powi (bitlen \<bar>k\<bar> - 53)"
proof -
  have p: "0 < \<bar>k\<bar>"
    using assms by simp
  have b: "bitlen (\<bar>k\<bar> * 2 ^ 1074) = bitlen \<bar>k\<bar> + int 1074"
    by (rule bitlen_pow2 [OF p])
  have "1 \<le> bitlen \<bar>k\<bar>"
    using assms by (simp add: bitlen_ge_iff_power)
  then have "max 0 (bitlen \<bar>k\<bar> + int 1074 - 53) - 1074 = bitlen \<bar>k\<bar> - 53"
    by simp
  then show ?thesis
    unfolding ulp_def floor_scaled b by (rule arg_cong)
qed

lemma powi_below: "c \<le> 53 \<Longrightarrow> (2::real) powi (c - 53) = inverse (2 ^ nat (53 - c))"
proof -
  assume "c \<le> 53"
  then have "c - 53 = - int (nat (53 - c))"
    by simp
  then have "(2::real) powi (c - 53) = 2 powi (- int (nat (53 - c)))"
    by (rule arg_cong)
  then show ?thesis
    by (simp only: power_int_minus power_int_of_nat)
qed

text \<open>Rounding leaves the integers up to \<open>2\<^sup>5\<^sup>3\<close> in size as they are.\<close>

lemma toDouble_int:
  assumes "\<bar>k\<bar> \<le> 2 ^ 53"
  shows "toDouble (of_int k) = Fin (of_int k)"
proof (cases "k = 0")
  case True
  then show ?thesis
    by (simp add: toDouble_def halfEven_def)
next
  case False
  let ?c = "bitlen \<bar>k\<bar>"
  let ?u = "(2::real) powi (?c - 53)"
  have u: "ulp (of_int k) = ?u"
    by (rule ulp_int [OF False])
  have pos: "0 < \<bar>k\<bar>"
    using False by simp
  have c54: "?c \<le> 54"
    using assms by (simp add: bitlen_le_iff_power)
  have "\<exists>z. real_of_int k / ?u = of_int z"
  proof (cases "?c \<le> 53")
    case True
    then have "?u = inverse (2 ^ nat (53 - ?c))"
      by (rule powi_below)
    then have "real_of_int k / ?u = of_int (k * 2 ^ nat (53 - ?c))"
      by (simp add: divide_inverse)
    then show ?thesis
      by blast
  next
    case False
    with c54 have c: "?c = 54"
      by simp
    from bitlen_bounds [OF pos] c have "2 ^ 53 \<le> \<bar>k\<bar>"
      by simp
    with assms have "\<bar>k\<bar> = 2 ^ 53"
      by simp
    then have "k = 2 ^ 53 \<or> k = - (2 ^ 53)"
      by linarith
    moreover have "?u = 2"
      unfolding c by simp
    ultimately have "real_of_int k / ?u = of_int (k div 2)"
      by auto
    then show ?thesis
      by blast
  qed
  then obtain z where z: "real_of_int k / ?u = of_int z"
    by blast
  have u0: "?u \<noteq> 0"
    by simp
  from z have y: "of_int z * ?u = real_of_int k"
    using u0 by (simp add: field_simps)
  have "\<bar>real_of_int k\<bar> \<le> 2 ^ 53"
    using assms by (metis of_int_abs of_int_le_iff of_int_numeral of_int_power)
  then have "\<not> 2 ^ 1024 \<le> \<bar>real_of_int k\<bar>"
    by simp
  then show ?thesis
    by (simp add: toDouble_def u z halfEven_int y)
qed

lemma toDouble_Ints:
  "r \<in> \<int> \<Longrightarrow> \<bar>r\<bar> \<le> 2 ^ 53 \<Longrightarrow> toDouble r = Fin r"
proof -
  assume "r \<in> \<int>" and b: "\<bar>r\<bar> \<le> 2 ^ 53"
  then obtain k where k: "r = of_int k"
    by (auto elim: Ints_cases)
  have "\<bar>k\<bar> \<le> 2 ^ 53"
  proof -
    from b k have "\<bar>real_of_int k\<bar> \<le> real_of_int (2 ^ 53)"
      by simp
    then show ?thesis
      by linarith
  qed
  from toDouble_int [OF this] k show ?thesis
    by simp
qed


text \<open>From \<open>2\<^sup>5\<^sup>3\<close> on, adding one changes nothing: \<open>2\<^sup>5\<^sup>3 + 1\<close> lies between two doubles and is rounded to the even one.\<close>

lemma toDouble_unsafe: "toDouble 9007199254740993 = Fin 9007199254740992"
proof -
  have k: "(2::real) ^ 53 + 1 = of_int (2 ^ 53 + 1)"
    by simp
  have "bitlen \<bar>2 ^ 53 + 1\<bar> = 54"
    using bitlen_twopow_add_eq [of 1 53] by simp
  with ulp_int [of "2 ^ 53 + 1"] have u: "ulp (2 ^ 53 + 1) = 2"
    unfolding k [symmetric] by simp
  have h: "halfEven ((2 ^ 53 + 1) / 2) = 2 ^ 52"
    by (simp add: halfEven_def Let_def)
  have "toDouble (2 ^ 53 + 1) = Fin (2 ^ 53)"
    unfolding toDouble_def u h Let_def by simp
  then show ?thesis
    by simp
qed

section \<open>Properties of the record store\<close>

declare writeMenuData_from.simps [simp del]

declare writeSettings_from.simps [simp del]

lemma try_fail_frame:
  "writeMenuData_try h a data st = (Inl e, st2) \<Longrightarrow> getMaxId h data = Inr m \<Longrightarrow> st2 = st"
  by (auto simp: writeMenuData_try_def Let_def split: if_splits sum.splits)

lemma attempt_retry_frame:
  "writeMenuData_attempt h a data k st = Inl st1 \<Longrightarrow> getMaxId h data = Inr m
     \<Longrightarrow> st1 = st\<lparr>fileLocks := fileLocks st1\<rparr>"
  by (auto simp: writeMenuData_attempt_def Let_def acquireLock_def releaseLock_def
      split: if_splits prod.splits sum.splits bool.splits dest!: try_fail_frame)

lemma attempt_fail_frame:
  "writeMenuData_attempt h a data k st = Inr (False, st1) \<Longrightarrow> getMaxId h data = Inr m
     \<Longrightarrow> st1 = st\<lparr>fileLocks := fileLocks st1\<rparr>"
  by (auto simp: writeMenuData_attempt_def Let_def acquireLock_def releaseLock_def
      split: if_splits prod.splits sum.splits bool.splits dest!: try_fail_frame)

lemma try_blocked:
  "blocked data a \<Longrightarrow> others a \<noteq> Taken \<Longrightarrow> \<exists>e. writeMenuData_try h a data st = (Inl e, st)"
  by (auto simp: writeMenuData_try_def blocked_def)

lemma attempt_blocked_retry:
  "blocked data a \<Longrightarrow> writeMenuData_attempt h a data k st = Inl st1
     \<Longrightarrow> st1 = st\<lparr>fileLocks := fileLocks st1\<rparr>"
  apply (cases "others a = Taken")
   apply (auto simp: writeMenuData_attempt_def Let_def acquireLock_def releaseLock_def
      split: if_splits prod.splits sum.splits bool.splits)[1]
  apply (frule try_blocked [where h = h and st = "st\<lparr>fileLocks := (fileLocks st)(MenuData := True)\<rparr>"], assumption)
  apply (auto simp: writeMenuData_attempt_def Let_def acquireLock_def releaseLock_def
      split: if_splits prod.splits sum.splits bool.splits)
  done

lemma attempt_blocked_return:
  "blocked data a \<Longrightarrow> writeMenuData_attempt h a data k st = Inr (ok, st1)
     \<Longrightarrow> \<not> ok \<and> st1 = st\<lparr>fileLocks := fileLocks st1\<rparr>"
  apply (cases "others a = Taken")
   apply (auto simp: writeMenuData_attempt_def Let_def acquireLock_def releaseLock_def
      split: if_splits prod.splits sum.splits bool.splits)[1]
  apply (frule try_blocked [where h = h and st = "st\<lparr>fileLocks := (fileLocks st)(MenuData := True)\<rparr>"], assumption)
  apply (auto simp: writeMenuData_attempt_def Let_def acquireLock_def releaseLock_def
      split: if_splits prod.splits sum.splits bool.splits)
  done

lemma write_from_fail_frame:
  "getMaxId h data = Inr m \<Longrightarrow> writeMenuData_from h env data k st = (False, st')
     \<Longrightarrow> st' = st\<lparr>fileLocks := fileLocks st'\<rparr>"
proof (induction h env data k st rule: writeMenuData_from.induct)
  case (1 h env data attempt st)
  show ?case
  proof (cases "attempt < maxRetries")
    case False
    with "1.prems" show ?thesis
      by (simp add: writeMenuData_from.simps)
  next
    case True
    show ?thesis
    proof (cases "writeMenuData_attempt h (env attempt) data attempt st")
      case (Inl st1)
      with True "1.prems" have "writeMenuData_from h env data (attempt + 1) st1 = (False, st')"
        by (simp add: writeMenuData_from.simps [of h env data attempt st])
      with "1.IH" [OF True Inl "1.prems"(1)] have a: "st' = st1\<lparr>fileLocks := fileLocks st'\<rparr>"
        by simp
      have b: "st1 = st\<lparr>fileLocks := fileLocks st1\<rparr>"
        using attempt_retry_frame [OF Inl "1.prems"(1)] .
      show ?thesis
        by (subst a, subst b) simp
    next
      case (Inr res)
      with True "1.prems" have "res = (False, st')"
        by (simp add: writeMenuData_from.simps [of h env data attempt st])
      with Inr show ?thesis
        using attempt_fail_frame "1.prems"(1) by blast
    qed
  qed
qed

lemma write_from_blocked:
  "\<forall>k<maxRetries. blocked data (env k) \<Longrightarrow> writeMenuData_from h env data k st = (ok, st')
     \<Longrightarrow> \<not> ok \<and> st' = st\<lparr>fileLocks := fileLocks st'\<rparr>"
proof (induction h env data k st rule: writeMenuData_from.induct)
  case (1 h env data attempt st)
  show ?case
  proof (cases "attempt < maxRetries")
    case False
    with "1.prems" show ?thesis
      by (auto simp add: writeMenuData_from.simps [of h env data attempt st])
  next
    case True
    then have bl: "blocked data (env attempt)"
      using "1.prems"(1) by simp
    show ?thesis
    proof (cases "writeMenuData_attempt h (env attempt) data attempt st")
      case (Inl st1)
      with True "1.prems" have "writeMenuData_from h env data (attempt + 1) st1 = (ok, st')"
        by (simp add: writeMenuData_from.simps [of h env data attempt st])
      with "1.IH" [OF True Inl "1.prems"(1)]
      have a: "\<not> ok" "st' = st1\<lparr>fileLocks := fileLocks st'\<rparr>"
        by simp_all
      have b: "st1 = st\<lparr>fileLocks := fileLocks st1\<rparr>"
        using attempt_blocked_retry [OF bl Inl] .
      have "st' = st\<lparr>fileLocks := fileLocks st'\<rparr>"
        by (subst a(2), subst b) simp
      with a(1) show ?thesis
        by simp
    next
      case (Inr res)
      with True "1.prems" have "res = (ok, st')"
        by (simp add: writeMenuData_from.simps [of h env data attempt st])
      with Inr show ?thesis
        using attempt_blocked_return [OF bl] by blast
    qed
  qed
qed

lemma attempt_success:
  "writeMenuData_attempt h a data k st = Inr (True, st1)
     \<Longrightarrow> isArray data \<and> DATA_FILE st1 = Json (jsonValue data) \<and> cache_menuData st1 = JNull
         \<and> cache_menuDataTimestamp st1 = 0 \<and> cache_maxId st1 = Some (projr (getMaxId h data))
         \<and> getMaxId h data = Inr (projr (getMaxId h data))
         \<and> cache_maxIdTimestamp st1 = clock a \<and> \<not> fileLocks st1 MenuData"
  by (auto simp: writeMenuData_attempt_def writeMenuData_try_def Let_def acquireLock_def
      releaseLock_def split: if_splits prod.splits sum.splits bool.splits)

lemma write_from_success:
  "writeMenuData_from h env data k st = (True, st')
     \<Longrightarrow> isArray data \<and> DATA_FILE st' = Json (jsonValue data) \<and> cache_menuData st' = JNull
         \<and> cache_menuDataTimestamp st' = 0 \<and> getMaxId h data = Inr (projr (getMaxId h data))
         \<and> cache_maxId st' = Some (projr (getMaxId h data)) \<and> \<not> fileLocks st' MenuData"
proof (induction h env data k st rule: writeMenuData_from.induct)
  case (1 h env data attempt st)
  show ?case
  proof (cases "attempt < maxRetries")
    case False
    with "1.prems" show ?thesis
      by (simp add: writeMenuData_from.simps [of h env data attempt st])
  next
    case True
    show ?thesis
    proof (cases "writeMenuData_attempt h (env attempt) data attempt st")
      case (Inl st1)
      with True "1.prems" have "writeMenuData_from h env data (attempt + 1) st1 = (True, st')"
        by (simp add: writeMenuData_from.simps [of h env data attempt st])
      with "1.IH" [OF True Inl] show ?thesis
        by simp
    next
      case (Inr res)
      with True "1.prems" have "res = (True, st')"
        by (simp add: writeMenuData_from.simps [of h env data attempt st])
      with Inr show ?thesis
        using attempt_success by blast
    qed
  qed
qed

lemma attempt_cache:
  "writeMenuData_attempt h a data k st = r \<Longrightarrow> st1 = (case r of Inl s \<Rightarrow> s | Inr (ok, s) \<Rightarrow> s)
     \<Longrightarrow> cache_menuData st1 = cache_menuData st \<or> cache_menuData st1 = JNull"
  by (auto simp: writeMenuData_attempt_def writeMenuData_try_def Let_def acquireLock_def
      releaseLock_def split: if_splits prod.splits sum.splits bool.splits)

lemma write_from_cache:
  "writeMenuData_from h env data k st = (ok, st')
     \<Longrightarrow> cache_menuData st' = cache_menuData st \<or> cache_menuData st' = JNull"
proof (induction h env data k st rule: writeMenuData_from.induct)
  case (1 h env data attempt st)
  show ?case
  proof (cases "attempt < maxRetries")
    case False
    with "1.prems" show ?thesis
      by (simp add: writeMenuData_from.simps [of h env data attempt st])
  next
    case True
    show ?thesis
    proof (cases "writeMenuData_attempt h (env attempt) data attempt st")
      case (Inl st1)
      with True "1.prems" have "writeMenuData_from h env data (attempt + 1) st1 = (ok, st')"
        by (simp add: writeMenuData_from.simps [of h env data attempt st])
      with "1.IH" [OF True Inl]
      have "cache_menuData st' = cache_menuData st1 \<or> cache_menuData st' = JNull"
        by simp
      moreover have "cache_menuData st1 = cache_menuData st \<or> cache_menuData st1 = JNull"
        using attempt_cache [OF Inl, of st1] by simp
      ultimately show ?thesis
        by auto
    next
      case (Inr res)
      with True "1.prems" have "res = (ok, st')"
        by (simp add: writeMenuData_from.simps [of h env data attempt st])
      with Inr show ?thesis
        using attempt_cache [of h "env attempt" data attempt st "Inr (ok, st')" st'] by simp
    qed
  qed
qed

lemma jsonValue_clean: "jsonClean v \<Longrightarrow> jsonValue v = v"
proof (induction v rule: jsonValue.induct)
  case (4 xs)
  then show ?case
    by (simp add: list_all_iff map_idI)
next
  case (5 kvs)
  have cl: "\<And>k v. (k, v) \<in> set kvs \<Longrightarrow> jsonClean v"
    using 5(2) by (auto simp: list_all_iff)
  have ne: "\<And>k v. (k, v) \<in> set kvs \<Longrightarrow> v \<noteq> JUndefined"
    using cl by fastforce
  have idv: "\<And>k v. (k, v) \<in> set kvs \<Longrightarrow> jsonValue v = v"
  proof -
    fix k v
    assume kv: "(k, v) \<in> set kvs"
    then have "(k, v) \<in> set (filter (\<lambda>(k, v). v \<noteq> JUndefined) kvs)"
      using ne by auto
    from 5(1) [OF this refl cl [OF kv]] show "jsonValue v = v" .
  qed
  have "filter (\<lambda>(k, v). v \<noteq> JUndefined) kvs = kvs"
    using ne by (auto simp: filter_id_conv)
  moreover have "map (\<lambda>(k, v). (k, jsonValue v)) kvs = kvs"
    using idv by (auto intro!: map_idI)
  ultimately show ?case
    by simp
qed simp_all

lemma truthy_cacheOk: "cacheOk st \<Longrightarrow> truthy (cache_menuData st) \<Longrightarrow> isArray (cache_menuData st)"
  by (auto simp: cacheOk_def)

text \<open>
  C3. A write whose every attempt is stopped by the lock, by \<^verbatim>\<open>writeFile\<close> or by
  \<^verbatim>\<open>rename\<close> returns \<^verbatim>\<open>false\<close> (the function has no other way out than its two
  results: nothing is thrown to the caller). After such a write, and after any write that
  returns \<^verbatim>\<open>false\<close> for data on which \<^verbatim>\<open>getMaxId\<close> returns, the cached menu data,
  its timestamp, the cached maximum id and the data file are what they were before.
\<close>

theorem writeMenuData_failure_keeps_cache:
  assumes "writeMenuData h env data st = (ok, st')"
  shows "((\<forall>k<maxRetries. blocked data (env k)) \<longrightarrow> \<not> ok)
       \<and> (\<not> ok \<and> ((\<forall>k<maxRetries. blocked data (env k)) \<or> (\<exists>m. getMaxId h data = Inr m))
            \<longrightarrow> cache_menuData st' = cache_menuData st
              \<and> cache_menuDataTimestamp st' = cache_menuDataTimestamp st
              \<and> cache_maxId st' = cache_maxId st
              \<and> cache_maxIdTimestamp st' = cache_maxIdTimestamp st
              \<and> DATA_FILE st' = DATA_FILE st)"
proof -
  have w: "writeMenuData_from h env data 0 st = (ok, st')"
    using assms by (simp add: writeMenuData_def)
  have a: "\<not> ok \<and> st' = st\<lparr>fileLocks := fileLocks st'\<rparr>"
    if "\<forall>k<maxRetries. blocked data (env k)"
    using write_from_blocked [OF that w] .
  have b: "st' = st\<lparr>fileLocks := fileLocks st'\<rparr>"
    if "\<not> ok" "getMaxId h data = Inr m" for m
    using write_from_fail_frame [OF that(2)] w that(1) by simp
  have c: "cache_menuData st' = cache_menuData st
              \<and> cache_menuDataTimestamp st' = cache_menuDataTimestamp st
              \<and> cache_maxId st' = cache_maxId st
              \<and> cache_maxIdTimestamp st' = cache_maxIdTimestamp st
              \<and> DATA_FILE st' = DATA_FILE st"
    if "st' = st\<lparr>fileLocks := fileLocks st'\<rparr>"
    by (subst that, simp)+
  show ?thesis
    using a b c by blast
qed

theorem writeMenuData_failure_keeps_cache_witness:
  "blocked (JArr [JObj [(''name'', JStr ''Burger''), (''id'', JNum (Fin 1))]])
     \<lparr>others = Untouched, writeFile_throws = False, rename_throws = True, clock = 7000\<rparr>
   \<and> fst (writeMenuData exampleHost
        (\<lambda>k. \<lparr>others = Untouched, writeFile_throws = False, rename_throws = True, clock = 7000\<rparr>)
        (JArr [JObj [(''name'', JStr ''Burger''), (''id'', JNum (Fin 1))]])
        ((newStore 5000 (Json (JArr [])) Missing)\<lparr>cache_menuData := JArr [], cache_menuDataTimestamp := 6000\<rparr>))
      = False
   \<and> cache_menuData (snd (writeMenuData exampleHost
        (\<lambda>k. \<lparr>others = Untouched, writeFile_throws = False, rename_throws = True, clock = 7000\<rparr>)
        (JArr [JObj [(''name'', JStr ''Burger''), (''id'', JNum (Fin 1))]])
        ((newStore 5000 (Json (JArr [])) Missing)\<lparr>cache_menuData := JArr [], cache_menuDataTimestamp := 6000\<rparr>)))
      = JArr []
   \<and> cache_menuDataTimestamp (snd (writeMenuData exampleHost
        (\<lambda>k. \<lparr>others = Untouched, writeFile_throws = False, rename_throws = True, clock = 7000\<rparr>)
        (JArr [JObj [(''name'', JStr ''Burger''), (''id'', JNum (Fin 1))]])
        ((newStore 5000 (Json (JArr [])) Missing)\<lparr>cache_menuData := JArr [], cache_menuDataTimestamp := 6000\<rparr>)))
      = 6000"
proof -
  let ?a = "\<lparr>others = Untouched, writeFile_throws = False, rename_throws = True, clock = 7000\<rparr>"
  let ?d = "JArr [JObj [(''name'', JStr ''Burger''), (''id'', JNum (Fin 1))]]"
  let ?st = "(newStore 5000 (Json (JArr [])) Missing)\<lparr>cache_menuData := JArr [], cache_menuDataTimestamp := 6000\<rparr>"
  let ?r = "writeMenuData exampleHost (\<lambda>k. ?a) ?d ?st"
  have bl: "blocked ?d ?a"
    by (simp add: blocked_def)
  have "?r = (fst ?r, snd ?r)"
    by simp
  from writeMenuData_failure_keeps_cache [OF this] bl show ?thesis
    by (simp add: newStore_def)
qed

text \<open>
  C4. When \<^verbatim>\<open>writeMenuData(X)\<close> returns \<^verbatim>\<open>true\<close> for an array \<^verbatim>\<open>X\<close> of JSON values (all
  the server ever passes: strings, finite numbers, booleans, \<^verbatim>\<open>null\<close>, arrays and objects
  of these), the next \<^verbatim>\<open>readMenuData()\<close> returns exactly \<^verbatim>\<open>X\<close>, at any time: the write
  has cleared the cache, so the read loads the file.
\<close>

theorem read_after_write:
  assumes "writeMenuData h env X st = (True, st')" and "jsonClean X"
  shows "isArray X \<and> fst (fst (readMenuData h env' now st')) = X"
proof -
  have w: "writeMenuData_from h env X 0 st = (True, st')"
    using assms(1) by (simp add: writeMenuData_def)
  note s = write_from_success [OF w]
  have f: "DATA_FILE st' = Json X"
    using s jsonValue_clean [OF assms(2)] by simp
  have c: "\<not> truthy (cache_menuData st')"
    using s by simp
  have a: "isArray X"
    using s by simp
  then have "truthy X"
    by (cases X) simp_all
  then show ?thesis
    using f c a by (simp add: readMenuData_def Let_def orEmpty_def split: sum.splits)
qed

theorem read_after_write_witness:
  "writeMenuData exampleHost (calm 7000)
       (JArr [JObj [(''name'', JStr ''Burger''), (''price'', JNum (Fin 9.99)), (''id'', JNum (Fin 1))]])
       (newStore 5000 (Json (JArr [])) Missing)
     = (True, (newStore 5000
          (Json (JArr [JObj [(''name'', JStr ''Burger''), (''price'', JNum (Fin 9.99)), (''id'', JNum (Fin 1))]]))
          Missing)\<lparr>cache_maxId := Some (Fin 1), cache_maxIdTimestamp := 7000\<rparr>)
   \<and> jsonClean (JArr [JObj [(''name'', JStr ''Burger''), (''price'', JNum (Fin 9.99)), (''id'', JNum (Fin 1))]])
   \<and> fst (fst (readMenuData exampleHost (calm 7001) 7001
        ((newStore 5000
          (Json (JArr [JObj [(''name'', JStr ''Burger''), (''price'', JNum (Fin 9.99)), (''id'', JNum (Fin 1))]]))
          Missing)\<lparr>cache_maxId := Some (Fin 1), cache_maxIdTimestamp := 7000\<rparr>)))
     = JArr [JObj [(''name'', JStr ''Burger''), (''price'', JNum (Fin 9.99)), (''id'', JNum (Fin 1))]]"
proof -
  let ?X = "JArr [JObj [(''name'', JStr ''Burger''), (''price'', JNum (Fin 9.99)), (''id'', JNum (Fin 1))]]"
  let ?st' = "(newStore 5000 (Json ?X) Missing)\<lparr>cache_maxId := Some (Fin 1), cache_maxIdTimestamp := 7000\<rparr>"
  have w: "writeMenuData exampleHost (calm 7000) ?X (newStore 5000 (Json (JArr [])) Missing) = (True, ?st')"
    by (simp add: writeMenuData_def writeMenuData_from.simps maxRetries_def writeMenuData_attempt_def
        writeMenuData_try_def acquireLock_def releaseLock_def calm_def newStore_def Let_def thenE_def
        orZero_def fun_upd_def)
  have c: "jsonClean ?X"
    by simp
  from read_after_write [OF w c, of "calm 7001" 7001] w c show ?thesis
    by simp
qed

text \<open>
  C9. \<^verbatim>\<open>readMenuData\<close> returns an array on every path (fresh cache, load from the file,
  missing file, unreadable or malformed file, wrong-shaped content, and a load on which
  \<^verbatim>\<open>getMaxId\<close> throws), and never throws: the function has no exceptional result. The
  cache holds \<^verbatim>\<open>null\<close> or an array before the call, as it does from the start of the
  process, and again after it.
\<close>

theorem readMenuData_returns_array:
  assumes "cacheOk st" and "readMenuData h env now st = ((v, shared), st')"
  shows "isArray v \<and> cacheOk st'"
proof (cases "truthy (cache_menuData st) \<and> now - cache_menuDataTimestamp st < cache_CACHE_TTL st")
  case True
  with assms show ?thesis
    by (auto simp: readMenuData_def dest: truthy_cacheOk)
next
  case stale: False
  show ?thesis
  proof (cases "DATA_FILE st")
    case Missing
    obtain ok st1 where w: "writeMenuData_from h env (JArr []) 0 st = (ok, st1)"
      by (cases "writeMenuData_from h env (JArr []) 0 st")
    from write_from_cache [OF w] assms(1) have "cacheOk st1"
      by (auto simp: cacheOk_def)
    with Missing stale assms(2) w show ?thesis
      by (auto simp: readMenuData_def writeMenuData_def)
  next
    case Unreadable
    with stale assms show ?thesis
      by (auto simp: readMenuData_def orEmpty_def dest: truthy_cacheOk split: if_splits)
  next
    case Malformed
    with stale assms show ?thesis
      by (auto simp: readMenuData_def orEmpty_def dest: truthy_cacheOk split: if_splits)
  next
    case (Json parsed)
    show ?thesis
    proof (cases "isArray parsed")
      case False
      with Json stale assms show ?thesis
        by (auto simp: readMenuData_def)
    next
      case True
      then have "truthy parsed"
        by (cases parsed) simp_all
      with True Json stale assms show ?thesis
        by (auto simp: readMenuData_def Let_def orEmpty_def cacheOk_def split: sum.splits)
    qed
  qed
qed

theorem readMenuData_returns_array_witness:
  "cacheOk (newStore 5000 (Json (JArr [JNull])) Missing)
   \<and> readMenuData exampleHost (calm 1000) 1000 (newStore 5000 (Json (JArr [JNull])) Missing)
       = ((JArr [JNull], True),
          (newStore 5000 (Json (JArr [JNull])) Missing)
            \<lparr>cache_menuData := JArr [JNull], cache_menuDataTimestamp := 1000\<rparr>)
   \<and> isArray (JArr [JNull])
   \<and> cacheOk ((newStore 5000 (Json (JArr [JNull])) Missing)
            \<lparr>cache_menuData := JArr [JNull], cache_menuDataTimestamp := 1000\<rparr>)"
proof -
  let ?st = "newStore 5000 (Json (JArr [JNull])) Missing"
  have c: "cacheOk ?st"
    by (simp add: cacheOk_def newStore_def)
  have r: "readMenuData exampleHost (calm 1000) 1000 ?st
       = ((JArr [JNull], True), ?st\<lparr>cache_menuData := JArr [JNull], cache_menuDataTimestamp := 1000\<rparr>)"
    by (simp add: readMenuData_def newStore_def Let_def thenE_def orEmpty_def)
  from readMenuData_returns_array [OF c r] c r show ?thesis
    by simp
qed

text \<open>
  C5, as stated, fails: with a cached array older than the TTL and a data file that parses
  to an object, \<^verbatim>\<open>readMenuData\<close> returns the empty array, not the cached value.
\<close>

theorem readMenuData_wrong_shape_counterexample:
  "truthy (cache_menuData ((newStore 5000 (Json (JObj [(''items'', JArr [])])) Missing)
       \<lparr>cache_menuData := JArr [JObj [(''name'', JStr ''Burger''), (''id'', JNum (Fin 1))]],
        cache_menuDataTimestamp := 1000, cache_maxId := Some (Fin 1), cache_maxIdTimestamp := 1000\<rparr>))
   \<and> fst (fst (readMenuData exampleHost (calm 7000) 7000
       ((newStore 5000 (Json (JObj [(''items'', JArr [])])) Missing)
       \<lparr>cache_menuData := JArr [JObj [(''name'', JStr ''Burger''), (''id'', JNum (Fin 1))]],
        cache_menuDataTimestamp := 1000, cache_maxId := Some (Fin 1), cache_maxIdTimestamp := 1000\<rparr>)))
     = JArr []
   \<and> JArr [] \<noteq> cache_menuData ((newStore 5000 (Json (JObj [(''items'', JArr [])])) Missing)
       \<lparr>cache_menuData := JArr [JObj [(''name'', JStr ''Burger''), (''id'', JNum (Fin 1))]],
        cache_menuDataTimestamp := 1000, cache_maxId := Some (Fin 1), cache_maxIdTimestamp := 1000\<rparr>)"
  by (simp add: readMenuData_def newStore_def)

text \<open>
  C5, amended. \<^verbatim>\<open>readMenuData\<close> never throws and leaves the store as it is when the file
  is bad. When the file is unreadable or is not JSON, it returns the cached array if there
  is one and the empty array otherwise. When the file parses to something that is not an
  array, it returns the cached array only while that is younger than the TTL (the file is
  then not read), and the empty array otherwise, also when an older cached array exists.
\<close>

theorem readMenuData_bad_file:
  assumes "readMenuData h env now st = ((v, shared), st')"
  shows "(DATA_FILE st = Malformed \<or> DATA_FILE st = Unreadable
            \<longrightarrow> st' = st \<and> v = (if truthy (cache_menuData st) then cache_menuData st else JArr []))
       \<and> ((\<exists>w. DATA_FILE st = Json w \<and> \<not> isArray w)
            \<longrightarrow> st' = st
              \<and> v = (if truthy (cache_menuData st)
                         \<and> now - cache_menuDataTimestamp st < cache_CACHE_TTL st
                      then cache_menuData st else JArr []))"
  using assms by (auto simp: readMenuData_def orEmpty_def split: if_splits)

theorem readMenuData_bad_file_witness:
  "readMenuData exampleHost (calm 7000) 7000
       ((newStore 5000 Malformed Missing)
       \<lparr>cache_menuData := JArr [JObj [(''name'', JStr ''Burger''), (''id'', JNum (Fin 1))]],
        cache_menuDataTimestamp := 1000, cache_maxId := Some (Fin 1), cache_maxIdTimestamp := 1000\<rparr>)
     = ((JArr [JObj [(''name'', JStr ''Burger''), (''id'', JNum (Fin 1))]], True),
        (newStore 5000 Malformed Missing)
       \<lparr>cache_menuData := JArr [JObj [(''name'', JStr ''Burger''), (''id'', JNum (Fin 1))]],
        cache_menuDataTimestamp := 1000, cache_maxId := Some (Fin 1), cache_maxIdTimestamp := 1000\<rparr>)
   \<and> readMenuData exampleHost (calm 7000) 7000
       ((newStore 5000 (Json (JObj [(''items'', JArr [])])) Missing)
       \<lparr>cache_menuData := JArr [JObj [(''name'', JStr ''Burger''), (''id'', JNum (Fin 1))]],
        cache_menuDataTimestamp := 1000, cache_maxId := Some (Fin 1), cache_maxIdTimestamp := 1000\<rparr>)
     = ((JArr [], False),
        (newStore 5000 (Json (JObj [(''items'', JArr [])])) Missing)
       \<lparr>cache_menuData := JArr [JObj [(''name'', JStr ''Burger''), (''id'', JNum (Fin 1))]],
        cache_menuDataTimestamp := 1000, cache_maxId := Some (Fin 1), cache_maxIdTimestamp := 1000\<rparr>)"
proof -
  let ?c = "JArr [JObj [(''name'', JStr ''Burger''), (''id'', JNum (Fin 1))]]"
  let ?st1 = "(newStore 5000 Malformed Missing)
       \<lparr>cache_menuData := ?c,
        cache_menuDataTimestamp := 1000, cache_maxId := Some (Fin 1), cache_maxIdTimestamp := 1000\<rparr>"
  let ?st2 = "(newStore 5000 (Json (JObj [(''items'', JArr [])])) Missing)
       \<lparr>cache_menuData := ?c,
        cache_menuDataTimestamp := 1000, cache_maxId := Some (Fin 1), cache_maxIdTimestamp := 1000\<rparr>"
  let ?r1 = "readMenuData exampleHost (calm 7000) 7000 ?st1"
  let ?r2 = "readMenuData exampleHost (calm 7000) 7000 ?st2"
  have p1: "?r1 = ((fst (fst ?r1), snd (fst ?r1)), snd ?r1)"
    by simp
  have p2: "?r2 = ((fst (fst ?r2), snd (fst ?r2)), snd ?r2)"
    by simp
  have d1: "DATA_FILE ?st1 = Malformed" "truthy (cache_menuData ?st1)"
    by (simp_all add: newStore_def)
  have d2: "DATA_FILE ?st2 = Json (JObj [(''items'', JArr [])])" "\<not> isArray (JObj [(''items'', JArr [])])"
    "\<not> (7000 - cache_menuDataTimestamp ?st2 < cache_CACHE_TTL ?st2)"
    by (simp_all add: newStore_def)
  have s1: "snd (fst ?r1) = True"
    by (simp add: readMenuData_def newStore_def orEmpty_def)
  have s2: "snd (fst ?r2) = False"
    by (simp add: readMenuData_def newStore_def orEmpty_def)
  from readMenuData_bad_file [OF p1] d1 have e1: "snd ?r1 = ?st1" "fst (fst ?r1) = ?c"
    by simp_all
  from readMenuData_bad_file [OF p2] d2 have e2: "snd ?r2 = ?st2" "fst (fst ?r2) = JArr []"
    by (simp_all del: isArray.simps)
  show ?thesis
    using e1 e2 s1 s2 by (simp add: prod_eq_iff)
qed

section \<open>Properties of the renderer\<close>

lemma getProp_obj: "\<exists>v. getProp (JObj kvs) k = Inr v"
  by simp

lemma getProp_truthy: "truthy v \<Longrightarrow> \<exists>w. getProp v k = Inr w"
  by (cases v) simp_all

lemma scheduleFlag:
  "isScheduledAvailable (JObj kvs)
     = Inr (\<forall>info. map_of kvs ''scheduleAvailability'' = Some (JObj info)
              \<longrightarrow> map_of info ''isAvailable'' \<noteq> Some (JBool False))"
proof (cases "map_of kvs ''scheduleAvailability''")
  case None
  then show ?thesis
    by (simp add: isScheduledAvailable_def scheduleInfo_def thenE_def)
next
  case (Some sa)
  show ?thesis
  proof (cases sa)
    case (JObj info)
    with Some show ?thesis
      by (cases "map_of info ''isAvailable''")
        (simp_all add: isScheduledAvailable_def scheduleInfo_def thenE_def)
  qed (use Some in \<open>simp_all add: isScheduledAvailable_def scheduleInfo_def thenE_def\<close>)
qed

text \<open>
  C2. For every menu item (an object with any properties), the renderer computes a final
  visibility, and it is the conjunction of the manual flag and the schedule result as the
  item carries them: the item is shown as available exactly when its \<^verbatim>\<open>available\<close>
  property is not \<^verbatim>\<open>false\<close> and its \<^verbatim>\<open>scheduleAvailability\<close> property is not an object
  whose \<^verbatim>\<open>isAvailable\<close> is \<^verbatim>\<open>false\<close>. So an item whose \<^verbatim>\<open>available\<close> is \<^verbatim>\<open>false\<close> is
  never shown as available, whatever its \<^verbatim>\<open>schedule\<close> and \<^verbatim>\<open>scheduleAvailability\<close>
  properties hold, and an item that the schedule result rules out is not shown as
  available either.
\<close>

theorem manual_override_wins:
  "finalAvailable (JObj kvs)
     = Inr (map_of kvs ''available'' \<noteq> Some (JBool False)
            \<and> (\<forall>info. map_of kvs ''scheduleAvailability'' = Some (JObj info)
                  \<longrightarrow> map_of info ''isAvailable'' \<noteq> Some (JBool False)))
   \<and> (map_of kvs ''available'' = Some (JBool False) \<longrightarrow> finalAvailable (JObj kvs) = Inr False)"
proof -
  have a: "isAvailable (JObj kvs) = Inr (map_of kvs ''available'' \<noteq> Some (JBool False))"
    by (cases "map_of kvs ''available''") (simp_all add: isAvailable_def thenE_def)
  show ?thesis
    by (simp add: finalAvailable_def a scheduleFlag thenE_def)
qed

theorem manual_override_wins_witness:
  "map_of [(''name'', JStr ''Burger''), (''available'', JBool False),
           (''schedule'', JObj [(''days'', JArr [JNum (Fin 1)])]),
           (''scheduleAvailability'', JObj [(''isAvailable'', JBool True)])] ''available''
     = Some (JBool False)
   \<and> map_of [(''name'', JStr ''Burger''), (''available'', JBool False),
           (''schedule'', JObj [(''days'', JArr [JNum (Fin 1)])]),
           (''scheduleAvailability'', JObj [(''isAvailable'', JBool True)])] ''scheduleAvailability''
     = Some (JObj [(''isAvailable'', JBool True)])
   \<and> finalAvailable (JObj [(''name'', JStr ''Burger''), (''available'', JBool False),
           (''schedule'', JObj [(''days'', JArr [JNum (Fin 1)])]),
           (''scheduleAvailability'', JObj [(''isAvailable'', JBool True)])]) = Inr False
   \<and> finalAvailable (JObj [(''name'', JStr ''Fries''), (''available'', JBool True),
           (''scheduleAvailability'', JObj [(''isAvailable'', JBool False)])]) = Inr False
   \<and> finalAvailable (JObj [(''name'', JStr ''Salad''),
           (''scheduleAvailability'', JObj [(''isAvailable'', JBool True)])]) = Inr True"
proof -
  let ?burger = "[(''name'', JStr ''Burger''), (''available'', JBool False),
           (''schedule'', JObj [(''days'', JArr [JNum (Fin 1)])]),
           (''scheduleAvailability'', JObj [(''isAvailable'', JBool True)])]"
  let ?fries = "[(''name'', JStr ''Fries''), (''available'', JBool True),
           (''scheduleAvailability'', JObj [(''isAvailable'', JBool False)])]"
  let ?salad = "[(''name'', JStr ''Salad''),
           (''scheduleAvailability'', JObj [(''isAvailable'', JBool True)])]"
  have m: "map_of ?burger ''available'' = Some (JBool False)"
    "map_of ?burger ''scheduleAvailability'' = Some (JObj [(''isAvailable'', JBool True)])"
    by simp_all
  from manual_override_wins [of ?burger] m have b: "finalAvailable (JObj ?burger) = Inr False"
    by blast
  from manual_override_wins [of ?fries] have f: "finalAvailable (JObj ?fries) = Inr False"
    by simp
  from manual_override_wins [of ?salad] have s: "finalAvailable (JObj ?salad) = Inr True"
    by simp
  from m b f s show ?thesis
    by blast
qed

section \<open>Properties of the settings route\<close>

lemma jsmax_jsmin_range:
  "num \<noteq> NaN \<Longrightarrow> lo \<le> hi \<Longrightarrow> inRange lo hi (jsmax (Fin lo) (jsmin (Fin hi) num))"
  by (cases num) (auto simp: inRange_def)

lemma clamp_range:
  "clamp h v lo hi d = Inr n \<Longrightarrow> lo \<le> hi \<Longrightarrow> lo \<le> d \<Longrightarrow> d \<le> hi \<Longrightarrow> inRange lo hi n"
  by (auto simp: clamp_def thenE_def inRange_def split: sum.splits if_splits
      dest: jsmax_jsmin_range [where lo = lo and hi = hi, unfolded inRange_def])

lemma knob_range:
  "knob h body k lo hi d = Inr n \<Longrightarrow> lo \<le> hi \<Longrightarrow> lo \<le> d \<Longrightarrow> d \<le> hi \<Longrightarrow> inRange lo hi n"
  by (auto simp: knob_def thenE_def split: sum.splits dest: clamp_range)

lemma validateColor_ok: "colorOk d (validateColor c d)"
  by (cases c) (auto simp: colorOk_def)

lemma color_ok: "color body k d = Inr c \<Longrightarrow> colorOk d c"
  by (auto simp: color_def thenE_def validateColor_ok split: sum.splits)

lemma thenE_Inr: "thenE m f = Inr y \<Longrightarrow> \<exists>x. m = Inr x \<and> f x = Inr y"
  by (cases m) (simp_all add: thenE_def)

lemma thenE_InrE:
  assumes "thenE m f = Inr y"
  obtains x where "m = Inr x" and "f x = Inr y"
  using assms by (cases m) (simp_all add: thenE_def)

lemma validSettings_ranges:
  assumes "validSettings h body = Inr s"
  shows "colorOk ''#0d3b2e'' (primaryColor s) \<and> colorOk ''#1a5c4a'' (secondaryColor s)
       \<and> colorOk ''#ffffff'' (textColor s) \<and> colorOk ''#ffd700'' (accentColor s)
       \<and> inRange 2 8 (headingFontSize s) \<and> inRange 1 3 (itemNameSize s)
       \<and> inRange 0.7 1.5 (descriptionSize s) \<and> inRange 1 3 (priceSize s)
       \<and> inRange 0 1 (cardOpacity s) \<and> inRange 0.5 5 (gridGap s)
       \<and> normalizeFilterCategories h body = Inr (filterCategories s)"
  using assms unfolding validSettings_def
  apply (elim thenE_InrE)
  apply (simp only: sum.inject)
  apply hypsubst
  apply (simp only: settings.simps)
  apply (intro conjI)
            apply (erule color_ok)+
        apply (erule knob_range; simp)+
  apply (rule refl)
  done

lemma lowerChar_idem: "lowerChar (lowerChar c) = lowerChar c"
  by (auto simp: lowerChar_def Let_def)

lemma toLowerCase_idem: "toLowerCase (toLowerCase s) = toLowerCase s"
  by (simp add: toLowerCase_def lowerChar_idem)

lemma toEntry_lower: "toEntry h f = Inr e \<Longrightarrow> toLowerCase (category e) = category e"
  unfolding toEntry_def
  by (elim thenE_InrE) (auto simp: toLowerCase_idem)

lemma sequenceE_set:
  "sequenceE (map f xs) = Inr ys \<Longrightarrow> y \<in> set ys \<Longrightarrow> \<exists>x \<in> set xs. f x = Inr y"
proof (induction xs arbitrary: ys)
  case Nil
  then show ?case by simp
next
  case (Cons x xs)
  from Cons.prems(1) obtain z zs where z: "f x = Inr z" and zs: "sequenceE (map f xs) = Inr zs"
    and ys: "ys = z # zs"
    by (auto elim!: thenE_InrE)
  with Cons.prems(2) Cons.IH [OF zs] show ?case
    by auto
qed

lemma default_entries:
  "e \<in> set getDefaultFilterCategories \<Longrightarrow> entryOk e \<and> toLowerCase (category e) = category e"
  by (auto simp: getDefaultFilterCategories_def entryOk_def toLowerCase_def lowerChar_def)

lemma normalize_entries:
  assumes "normalizeFilterCategories h body = Inr fc" and "e \<in> set fc"
  shows "entryOk e \<and> toLowerCase (category e) = category e"
proof -
  from assms(1) obtain v where v: "getProp body ''filterCategories'' = Inr v"
    and r: "(case v of
         JArr fs \<Rightarrow>
           thenE (filterE rawEntryOk fs) (\<lambda>kept.
           thenE (sequenceE (map (toEntry h) kept)) (\<lambda>entries.
             Inr (filter entryOk entries)))
       | _ \<Rightarrow> Inr getDefaultFilterCategories) = Inr fc"
    unfolding normalizeFilterCategories_def by (elim thenE_InrE)
  show ?thesis
  proof (cases v)
    case (JArr fs)
    with r obtain kept entries where "sequenceE (map (toEntry h) kept) = Inr entries"
      and "fc = filter entryOk entries"
      by (auto elim!: thenE_InrE)
    with assms(2) sequenceE_set [of "toEntry h" kept entries e] show ?thesis
      by (auto dest: toEntry_lower)
  qed (use r assms(2) default_entries in auto)
qed

lemma attemptS_success:
  "writeSettings_attempt a data k st = Inr (True, st1)
     \<Longrightarrow> isObjectLike data \<and> SETTINGS_FILE st1 = Json (jsonValue data) \<and> cache_settings st1 = JNull"
  by (auto simp: writeSettings_attempt_def writeSettings_try_def Let_def acquireLock_def
      releaseLock_def split: if_splits prod.splits sum.splits bool.splits)

lemma writeS_from_success:
  "writeSettings_from env data k st = (True, st')
     \<Longrightarrow> isObjectLike data \<and> SETTINGS_FILE st' = Json (jsonValue data) \<and> cache_settings st' = JNull"
proof (induction env data k st rule: writeSettings_from.induct)
  case (1 env data attempt st)
  show ?case
  proof (cases "attempt < maxRetries")
    case False
    with "1.prems" show ?thesis
      by (simp add: writeSettings_from.simps [of env data attempt st])
  next
    case True
    show ?thesis
    proof (cases "writeSettings_attempt (env attempt) data attempt st")
      case (Inl st1)
      with True "1.prems" have "writeSettings_from env data (attempt + 1) st1 = (True, st')"
        by (simp add: writeSettings_from.simps [of env data attempt st])
      with "1.IH" [OF True Inl] show ?thesis
        by simp
    next
      case (Inr res)
      with True "1.prems" have "res = (True, st')"
        by (simp add: writeSettings_from.simps [of env data attempt st])
      with Inr show ?thesis
        using attemptS_success by blast
    qed
  qed
qed

lemma inRange_Fin: "inRange lo hi n \<Longrightarrow> \<exists>r. n = Fin r"
  by (cases n) (simp_all add: inRange_def)

lemma settingsValue_clean:
  assumes "validSettings h body = Inr s"
  shows "jsonClean (settingsValue s)"
proof -
  note n = validSettings_ranges [OF assms]
  have "list_all (\<lambda>(k, v). jsonClean v) (map (\<lambda>f. (''x'', entryValue f)) fs)" for fs
    by (induction fs) (simp_all add: entryValue_def)
  then have "list_all jsonClean (map entryValue fs)" for fs
    by (induction fs) (simp_all add: entryValue_def)
  with n show ?thesis
    by (auto simp: settingsValue_def dest!: inRange_Fin)
qed

lemma strings_example:
  "toLowerCase ''Drinks'' = ''drinks''" "toLowerCase ''DRINKS'' = ''drinks''"
  "trim ''Drinks'' = ''Drinks''" "trim '' DRINKS '' = ''DRINKS''"
  "trim ''Cold drinks'' = ''Cold drinks''"
  by code_simp+

lemma getProp_field: "getProp v k = Inr w \<Longrightarrow> w = field v k"
  by (cases v) auto

lemma rawEntryOk_total:
  "rawEntryOk f = Inr (truthy (field f ''category'') \<and> truthy (field f ''label''))"
  by (cases f) (simp_all add: rawEntryOk_def thenE_def)

lemma filterE_total:
  "(\<And>x. x \<in> set xs \<Longrightarrow> p x = Inr (q x)) \<Longrightarrow> filterE p xs = Inr (filter q xs)"
  by (induction xs) (simp_all add: thenE_def)

lemma toEntry_stored: "toEntry h f = Inr e \<Longrightarrow> e = storedEntry h f"
  unfolding toEntry_def
  by (elim thenE_InrE)
    (auto simp: storedEntry_def keyOf_def labelOf_def textOf_def dest!: getProp_field)

lemma sequenceE_map:
  "sequenceE (map f xs) = Inr ys \<Longrightarrow> (\<And>x y. f x = Inr y \<Longrightarrow> y = g x) \<Longrightarrow> ys = map g xs"
proof (induction xs arbitrary: ys)
  case Nil
  then show ?case by simp
next
  case (Cons x xs)
  from Cons.prems(1) obtain z zs where z: "f x = Inr z" and zs: "sequenceE (map f xs) = Inr zs"
    and ys: "ys = z # zs"
    by (auto elim!: thenE_InrE)
  from Cons.IH [OF zs Cons.prems(2)] Cons.prems(2) [OF z] ys show ?case
    by simp
qed

lemma passes_stages:
  "passes h f
     = ((truthy (field f ''category'') \<and> truthy (field f ''label'')) \<and> entryOk (storedEntry h f))"
  by (auto simp: passes_def entryOk_def storedEntry_def)

text \<open>
  The pipeline of the route, with its three stages and its callbacks that may throw,
  yields the passing entries of the submitted list as stored entries, in their order.
\<close>

lemma normalize_array:
  assumes "normalizeFilterCategories h body = Inr fc"
    and "field body ''filterCategories'' = JArr fs"
  shows "fc = map (storedEntry h) (filter (passes h) fs)"
proof -
  let ?raw = "\<lambda>f. truthy (field f ''category'') \<and> truthy (field f ''label'')"
  from assms(1) obtain v where v: "getProp body ''filterCategories'' = Inr v"
    and r: "(case v of
         JArr fs \<Rightarrow>
           thenE (filterE rawEntryOk fs) (\<lambda>kept.
           thenE (sequenceE (map (toEntry h) kept)) (\<lambda>entries.
             Inr (filter entryOk entries)))
       | _ \<Rightarrow> Inr getDefaultFilterCategories) = Inr fc"
    unfolding normalizeFilterCategories_def by (elim thenE_InrE)
  from getProp_field [OF v] assms(2) have "v = JArr fs"
    by simp
  moreover have "filterE rawEntryOk fs = Inr (filter ?raw fs)"
    by (rule filterE_total) (rule rawEntryOk_total)
  ultimately obtain entries where e: "sequenceE (map (toEntry h) (filter ?raw fs)) = Inr entries"
    and fc: "fc = filter entryOk entries"
    using r by (auto simp: thenE_def split: sum.splits)
  have "entries = map (storedEntry h) (filter ?raw fs)"
    using e by (rule sequenceE_map) (rule toEntry_stored)
  with fc have "fc = map (storedEntry h) (filter (entryOk \<circ> storedEntry h) (filter ?raw fs))"
    by (simp add: filter_map)
  also have "filter (entryOk \<circ> storedEntry h) (filter ?raw fs) = filter (passes h) fs"
    by (auto simp: passes_stages intro!: filter_cong)
  finally show ?thesis .
qed

lemma normalize_default:
  assumes "normalizeFilterCategories h body = Inr fc"
    and "\<nexists>fs. field body ''filterCategories'' = JArr fs"
  shows "fc = getDefaultFilterCategories"
proof -
  from assms(1) obtain v where v: "getProp body ''filterCategories'' = Inr v"
    and r: "(case v of
         JArr fs \<Rightarrow>
           thenE (filterE rawEntryOk fs) (\<lambda>kept.
           thenE (sequenceE (map (toEntry h) kept)) (\<lambda>entries.
             Inr (filter entryOk entries)))
       | _ \<Rightarrow> Inr getDefaultFilterCategories) = Inr fc"
    unfolding normalizeFilterCategories_def by (elim thenE_InrE)
  from getProp_field [OF v] assms(2) have "\<nexists>fs. v = JArr fs"
    by simp
  with r show ?thesis
    by (cases v) simp_all
qed

text \<open>
  C8, amended. After every successful settings update the settings file holds the settings
  the route built. When the request carries a list of categories, the stored list has one
  entry, in order, for each submitted entry that passes (a truthy category and label which,
  trimmed, are not empty and not longer than 100), and that entry has the category trimmed
  and in lower case, the label trimmed, and \<^verbatim>\<open>enabled\<close> as a boolean: as many entries
  as pass, so that entries with equal keys are all kept. Without a list in the request the
  stored list is the default one. Every stored key is in lower case, which makes a
  case-insensitive comparison of keys an equality test.
\<close>

theorem putSettings_filterCategories:
  assumes "putSettings h env body st = (SettingsSaved s, st')"
  shows "SETTINGS_FILE st' = Json (settingsValue s)
       \<and> (\<forall>fs. field body ''filterCategories'' = JArr fs
            \<longrightarrow> filterCategories s = map (storedEntry h) (filter (passes h) fs)
              \<and> length (filterCategories s) = length (filter (passes h) fs)
              \<and> map category (filterCategories s) = map (keyOf h) (filter (passes h) fs))
       \<and> ((\<nexists>fs. field body ''filterCategories'' = JArr fs)
            \<longrightarrow> filterCategories s = getDefaultFilterCategories)
       \<and> (\<forall>e \<in> set (filterCategories s).
             category e \<noteq> [] \<and> length (category e) \<le> 100
             \<and> label e \<noteq> [] \<and> length (label e) \<le> 100
             \<and> toLowerCase (category e) = category e)"
proof -
  from assms have v: "validSettings h body = Inr s"
    and w: "writeSettings env (settingsValue s) st = (True, st')"
    by (auto simp: putSettings_def split: sum.splits prod.splits bool.splits)
  from w have "SETTINGS_FILE st' = Json (jsonValue (settingsValue s))"
    using writeS_from_success by (simp add: writeSettings_def)
  then have f: "SETTINGS_FILE st' = Json (settingsValue s)"
    using jsonValue_clean [OF settingsValue_clean [OF v]] by simp
  have n: "normalizeFilterCategories h body = Inr (filterCategories s)"
    using validSettings_ranges [OF v] by simp
  have a: "filterCategories s = map (storedEntry h) (filter (passes h) fs)
         \<and> length (filterCategories s) = length (filter (passes h) fs)
         \<and> map category (filterCategories s) = map (keyOf h) (filter (passes h) fs)"
    if "field body ''filterCategories'' = JArr fs" for fs
    using normalize_array [OF n that] by (simp add: storedEntry_def comp_def)
  have d: "filterCategories s = getDefaultFilterCategories"
    if "\<nexists>fs. field body ''filterCategories'' = JArr fs"
    using normalize_default [OF n that] .
  show ?thesis
    using f a d normalize_entries [OF n] by (auto simp: entryOk_def)
qed

lemma putSettings_duplicates_example:
  "fst (putSettings exampleHost (calm 0)
      (JObj [(''filterCategories'',
         JArr [JObj [(''category'', JStr ''Drinks''), (''label'', JStr ''Drinks''), (''enabled'', JBool True)],
               JObj [(''category'', JStr '' DRINKS ''), (''label'', JStr ''Cold drinks''), (''enabled'', JBool True)]])])
      (newStore 5000 Missing Missing))
   = SettingsSaved
      \<lparr>primaryColor = ''#0d3b2e'', secondaryColor = ''#1a5c4a'', textColor = ''#ffffff'',
       accentColor = ''#ffd700'', headingFontSize = Fin 4, itemNameSize = Fin 1.8,
       descriptionSize = Fin 0.95, priceSize = Fin 1.5, cardOpacity = Fin 0.05, gridGap = Fin 2,
       filterCategories =
         [\<lparr>category = ''drinks'', label = ''Drinks'', enabled = True\<rparr>,
          \<lparr>category = ''drinks'', label = ''Cold drinks'', enabled = True\<rparr>]\<rparr>"
  by (simp add: putSettings_def validSettings_def normalizeFilterCategories_def rawEntryOk_def
      toEntry_def entryOk_def color_def knob_def clamp_def thenE_def strings_example
      writeSettings_def writeSettings_from.simps maxRetries_def writeSettings_attempt_def
      writeSettings_try_def acquireLock_def releaseLock_def calm_def newStore_def settingsValue_def
      entryValue_def)

text \<open>
  C8, as stated, fails: a request with the keys \<^verbatim>\<open>Drinks\<close> and \<^verbatim>\<open> DRINKS \<close> is saved
  with two entries whose key is \<^verbatim>\<open>drinks\<close>.
\<close>

theorem putSettings_duplicate_categories_counterexample:
  "fst (putSettings exampleHost (calm 0)
      (JObj [(''filterCategories'',
         JArr [JObj [(''category'', JStr ''Drinks''), (''label'', JStr ''Drinks''), (''enabled'', JBool True)],
               JObj [(''category'', JStr '' DRINKS ''), (''label'', JStr ''Cold drinks''), (''enabled'', JBool True)]])])
      (newStore 5000 Missing Missing))
   = SettingsSaved
      \<lparr>primaryColor = ''#0d3b2e'', secondaryColor = ''#1a5c4a'', textColor = ''#ffffff'',
       accentColor = ''#ffd700'', headingFontSize = Fin 4, itemNameSize = Fin 1.8,
       descriptionSize = Fin 0.95, priceSize = Fin 1.5, cardOpacity = Fin 0.05, gridGap = Fin 2,
       filterCategories =
         [\<lparr>category = ''drinks'', label = ''Drinks'', enabled = True\<rparr>,
          \<lparr>category = ''drinks'', label = ''Cold drinks'', enabled = True\<rparr>]\<rparr>"
  by (rule putSettings_duplicates_example)

theorem putSettings_filterCategories_witness:
  "(\<exists>s. fst (putSettings exampleHost (calm 0)
      (JObj [(''filterCategories'',
         JArr [JObj [(''category'', JStr ''Drinks''), (''label'', JStr ''Drinks''), (''enabled'', JBool True)],
               JNull,
               JObj [(''category'', JStr '' DRINKS ''), (''label'', JStr ''Cold drinks'')],
               JObj [(''category'', JStr ''  ''), (''label'', JStr ''Blank'')]])])
      (newStore 5000 Missing Missing)) = SettingsSaved s
     \<and> SETTINGS_FILE (snd (putSettings exampleHost (calm 0)
      (JObj [(''filterCategories'',
         JArr [JObj [(''category'', JStr ''Drinks''), (''label'', JStr ''Drinks''), (''enabled'', JBool True)],
               JNull,
               JObj [(''category'', JStr '' DRINKS ''), (''label'', JStr ''Cold drinks'')],
               JObj [(''category'', JStr ''  ''), (''label'', JStr ''Blank'')]])])
      (newStore 5000 Missing Missing))) = Json (settingsValue s)
     \<and> filterCategories s
        = [\<lparr>category = ''drinks'', label = ''Drinks'', enabled = True\<rparr>,
           \<lparr>category = ''drinks'', label = ''Cold drinks'', enabled = False\<rparr>])"
proof -
  let ?fs = "[JObj [(''category'', JStr ''Drinks''), (''label'', JStr ''Drinks''), (''enabled'', JBool True)],
               JNull,
               JObj [(''category'', JStr '' DRINKS ''), (''label'', JStr ''Cold drinks'')],
               JObj [(''category'', JStr ''  ''), (''label'', JStr ''Blank'')]]"
  let ?body = "JObj [(''filterCategories'', JArr ?fs)]"
  let ?r = "putSettings exampleHost (calm 0) ?body (newStore 5000 Missing Missing)"
  have t: "trim ''  '' = []" "trim ''Blank'' = ''Blank''"
    by code_simp+
  obtain s where s: "fst ?r = SettingsSaved s"
    by (simp add: putSettings_def validSettings_def normalizeFilterCategories_def rawEntryOk_def
      toEntry_def entryOk_def color_def knob_def clamp_def thenE_def strings_example t
      toLowerCase_def [of "[]"]
      writeSettings_def writeSettings_from.simps maxRetries_def writeSettings_attempt_def
      writeSettings_try_def acquireLock_def releaseLock_def calm_def newStore_def settingsValue_def
      entryValue_def)
  then have r: "?r = (SettingsSaved s, snd ?r)"
    by (simp add: prod_eq_iff)
  have l: "field ?body ''filterCategories'' = JArr ?fs"
    by simp
  have k: "map (storedEntry exampleHost) (filter (passes exampleHost) ?fs)
      = [\<lparr>category = ''drinks'', label = ''Drinks'', enabled = True\<rparr>,
         \<lparr>category = ''drinks'', label = ''Cold drinks'', enabled = False\<rparr>]"
    by (simp add: passes_def storedEntry_def keyOf_def labelOf_def textOf_def strings_example t
        toLowerCase_def [of "[]"])
  from putSettings_filterCategories [OF r] l k
  have "SETTINGS_FILE (snd ?r) = Json (settingsValue s)
      \<and> filterCategories s
        = [\<lparr>category = ''drinks'', label = ''Drinks'', enabled = True\<rparr>,
           \<lparr>category = ''drinks'', label = ''Cold drinks'', enabled = False\<rparr>]"
    by (simp del: field.simps)
  with s show ?thesis
    by blast
qed

text \<open>The saved object has the eleven keys of \<^verbatim>\<open>validSettings\<close> and no other.\<close>

lemma settingsValue_keys:
  "\<exists>kvs. settingsValue s = JObj kvs
     \<and> map fst kvs = [''primaryColor'', ''secondaryColor'', ''textColor'', ''accentColor'',
          ''headingFontSize'', ''itemNameSize'', ''descriptionSize'', ''priceSize'',
          ''cardOpacity'', ''gridGap'', ''filterCategories'']"
  by (simp add: settingsValue_def)

lemma primitive_converts:
  "primitive v \<Longrightarrow> isOk (ToString h v) \<and> isOk (parseFloat h v) \<and> isOk (parseInt h v)"
proof (cases v)
  case (JNum n)
  then show ?thesis
    by (cases n) (simp_all add: thenE_def)
qed (simp_all add: thenE_def)

lemma isOk_iff: "isOk m \<longleftrightarrow> (\<exists>x. m = Inr x)"
  by (cases m) simp_all

lemma getProp_same: "getProp body k = Inr v \<Longrightarrow> \<exists>w. getProp body k' = Inr w"
  by (cases body) simp_all

lemma color_total: "getProp body k = Inr v \<Longrightarrow> \<exists>c. color body k' d = Inr c"
  using getProp_same [of body k v k'] by (auto simp: color_def thenE_def)

lemma converts_validSettings:
  assumes "converts h body"
  shows "\<exists>s. validSettings h body = Inr s"
proof -
  from assms obtain fc where fc: "normalizeFilterCategories h body = Inr fc"
    by (auto simp: converts_def isOk_iff)
  then obtain v where v: "getProp body ''filterCategories'' = Inr v"
    unfolding normalizeFilterCategories_def by (elim thenE_InrE)
  obtain c1 c2 c3 c4 where c: "color body ''primaryColor'' ''#0d3b2e'' = Inr c1"
       "color body ''secondaryColor'' ''#1a5c4a'' = Inr c2"
       "color body ''textColor'' ''#ffffff'' = Inr c3"
       "color body ''accentColor'' ''#ffd700'' = Inr c4"
    using color_total [OF v] by metis
  from assms obtain k1 k2 k3 k4 k5 k6 where k: "knob h body ''headingFontSize'' 2 8 4 = Inr k1"
       "knob h body ''itemNameSize'' 1 3 1.8 = Inr k2"
       "knob h body ''descriptionSize'' 0.7 1.5 0.95 = Inr k3"
       "knob h body ''priceSize'' 1 3 1.5 = Inr k4"
       "knob h body ''cardOpacity'' 0 1 0.05 = Inr k5"
       "knob h body ''gridGap'' 0.5 5 2 = Inr k6"
    by (auto simp: converts_def knobs_def isOk_iff)
  show ?thesis
    by (simp only: validSettings_def fc c k thenE_def sum.case) blast
qed

lemma validSettings_converts:
  assumes "validSettings h body = Inr s"
  shows "converts h body"
  using assms unfolding validSettings_def converts_def knobs_def
  by (elim thenE_InrE) simp

text \<open>What \<^verbatim>\<open>clamp\<close> and \<^verbatim>\<open>validateColor\<close> return, on the value they are given.\<close>

lemma clamp_clamped:
  assumes "clamp h v lo hi d = Inr n" and "lo \<le> hi"
  shows "\<exists>num. parseFloat h v = Inr num \<and> n = clamped lo hi d num"
proof -
  from assms(1) obtain num where p: "parseFloat h v = Inr num"
    and n: "n = (if num = NaN then Fin d else jsmax (Fin lo) (jsmin (Fin hi) num))"
    unfolding clamp_def by (elim thenE_InrE) (auto split: if_splits)
  have "n = clamped lo hi d num"
    unfolding n using assms(2) by (cases num) auto
  with p show ?thesis
    by blast
qed

lemma knob_clamped:
  assumes "knob h body k lo hi d = Inr n" and "lo \<le> hi"
  shows "\<exists>num. parseFloat h (field body k) = Inr num \<and> n = clamped lo hi d num"
proof -
  from assms(1) obtain v where v: "getProp body k = Inr v" and c: "clamp h v lo hi d = Inr n"
    unfolding knob_def by (elim thenE_InrE)
  from clamp_clamped [OF c assms(2)] getProp_field [OF v] show ?thesis
    by simp
qed

lemma color_kept: "color body k d = Inr c \<Longrightarrow> c = keptColor (field body k) d"
proof -
  assume "color body k d = Inr c"
  then obtain v where v: "getProp body k = Inr v" and c: "c = validateColor v d"
    unfolding color_def by (elim thenE_InrE) simp
  have "validateColor v d = keptColor v d"
    by (cases v) auto
  with c getProp_field [OF v] show ?thesis
    by simp
qed

lemma validSettings_fields:
  assumes "validSettings h body = Inr s"
  shows "primaryColor s = keptColor (field body ''primaryColor'') ''#0d3b2e''
       \<and> secondaryColor s = keptColor (field body ''secondaryColor'') ''#1a5c4a''
       \<and> textColor s = keptColor (field body ''textColor'') ''#ffffff''
       \<and> accentColor s = keptColor (field body ''accentColor'') ''#ffd700''
       \<and> (\<exists>num. parseFloat h (field body ''headingFontSize'') = Inr num
              \<and> headingFontSize s = clamped 2 8 4 num)
       \<and> (\<exists>num. parseFloat h (field body ''itemNameSize'') = Inr num
              \<and> itemNameSize s = clamped 1 3 1.8 num)
       \<and> (\<exists>num. parseFloat h (field body ''descriptionSize'') = Inr num
              \<and> descriptionSize s = clamped 0.7 1.5 0.95 num)
       \<and> (\<exists>num. parseFloat h (field body ''priceSize'') = Inr num
              \<and> priceSize s = clamped 1 3 1.5 num)
       \<and> (\<exists>num. parseFloat h (field body ''cardOpacity'') = Inr num
              \<and> cardOpacity s = clamped 0 1 0.05 num)
       \<and> (\<exists>num. parseFloat h (field body ''gridGap'') = Inr num
              \<and> gridGap s = clamped 0.5 5 2 num)"
  using assms unfolding validSettings_def
  apply (elim thenE_InrE)
  apply (simp only: sum.inject)
  apply hypsubst
  apply (simp only: settings.simps)
  apply (intro conjI)
           apply (erule color_kept)+
       apply (erule knob_clamped; simp)+
  done

text \<open>
  C10, amended. The route has no validation answer: it never responds with a 400. For
  every body on which no conversion throws it builds the settings object, with its eleven
  fixed keys, and goes on to save it: the answer carries that object and the settings file
  holds it, or the write has failed. In the object each colour is the submitted string when
  that matches the pattern and the default otherwise, and each number is what
  \<^verbatim>\<open>parseFloat\<close> reads from the submitted value, replaced by the default when that is
  \<^verbatim>\<open>NaN\<close>, by the lower bound when it is below, by the upper bound when it is above. A
  body with a value that cannot be converted to a string makes the route throw;
  \<^verbatim>\<open>errorHandler\<close> answers and nothing is written.
\<close>

theorem putSettings_normalizes:
  "fst (putSettings h env body st) \<noteq> BadRequest
   \<and> (converts h body \<longrightarrow>
        (\<exists>s. validSettings h body = Inr s
           \<and> (fst (putSettings h env body st) = SettingsSaved s
                 \<and> SETTINGS_FILE (snd (putSettings h env body st)) = Json (settingsValue s)
               \<or> fst (putSettings h env body st) = SaveFailed)
           \<and> (\<exists>kvs. settingsValue s = JObj kvs
                 \<and> map fst kvs = [''primaryColor'', ''secondaryColor'', ''textColor'',
                      ''accentColor'', ''headingFontSize'', ''itemNameSize'', ''descriptionSize'',
                      ''priceSize'', ''cardOpacity'', ''gridGap'', ''filterCategories''])
           \<and> primaryColor s = keptColor (field body ''primaryColor'') ''#0d3b2e''
           \<and> secondaryColor s = keptColor (field body ''secondaryColor'') ''#1a5c4a''
           \<and> textColor s = keptColor (field body ''textColor'') ''#ffffff''
           \<and> accentColor s = keptColor (field body ''accentColor'') ''#ffd700''
           \<and> (\<exists>num. parseFloat h (field body ''headingFontSize'') = Inr num
                  \<and> headingFontSize s = clamped 2 8 4 num)
           \<and> (\<exists>num. parseFloat h (field body ''itemNameSize'') = Inr num
                  \<and> itemNameSize s = clamped 1 3 1.8 num)
           \<and> (\<exists>num. parseFloat h (field body ''descriptionSize'') = Inr num
                  \<and> descriptionSize s = clamped 0.7 1.5 0.95 num)
           \<and> (\<exists>num. parseFloat h (field body ''priceSize'') = Inr num
                  \<and> priceSize s = clamped 1 3 1.5 num)
           \<and> (\<exists>num. parseFloat h (field body ''cardOpacity'') = Inr num
                  \<and> cardOpacity s = clamped 0 1 0.05 num)
           \<and> (\<exists>num. parseFloat h (field body ''gridGap'') = Inr num
                  \<and> gridGap s = clamped 0.5 5 2 num)))
   \<and> (\<not> converts h body \<longrightarrow> (\<exists>e. putSettings h env body st = (Thrown e, st)))"
proof (cases "validSettings h body")
  case (Inl e)
  then have "\<not> converts h body"
    using converts_validSettings by fastforce
  with Inl show ?thesis
    by (simp add: putSettings_def)
next
  case (Inr s)
  then have c: "converts h body"
    by (rule validSettings_converts)
  obtain saved st' where w: "writeSettings env (settingsValue s) st = (saved, st')"
    by (cases "writeSettings env (settingsValue s) st")
  have a: "fst (putSettings h env body st) = SettingsSaved s
         \<and> SETTINGS_FILE (snd (putSettings h env body st)) = Json (settingsValue s)
       \<or> fst (putSettings h env body st) = SaveFailed"
  proof (cases saved)
    case True
    with w have w': "writeSettings env (settingsValue s) st = (True, st')"
      by simp
    then have "SETTINGS_FILE st' = Json (jsonValue (settingsValue s))"
      using writeS_from_success by (simp add: writeSettings_def)
    then have "SETTINGS_FILE st' = Json (settingsValue s)"
      using jsonValue_clean [OF settingsValue_clean [OF Inr]] by simp
    with Inr w' show ?thesis
      by (simp add: putSettings_def)
  next
    case False
    with w have "writeSettings env (settingsValue s) st = (False, st')"
      by simp
    with Inr show ?thesis
      by (simp add: putSettings_def)
  qed
  have b: "fst (putSettings h env body st) \<noteq> BadRequest"
    using a by auto
  note f = validSettings_fields [OF Inr]
  note k = settingsValue_keys [of s]
  show ?thesis
    apply (intro conjI impI)
      apply (rule b)
     apply (rule exI [of _ s])
     apply (rule conjI [OF Inr conjI [OF a conjI [OF k f]]])
    apply (simp add: c)
    done
qed

text \<open>
  C10, as stated, fails: \<^verbatim>\<open>parseFloat\<close> of an object with an own \<^verbatim>\<open>toString\<close>
  property throws, so for this body no settings are built.
\<close>

theorem putSettings_unconvertible_counterexample:
  "putSettings exampleHost (calm 0)
      (JObj [(''headingFontSize'', JObj [(''toString'', JNum (Fin 1))])])
      (newStore 5000 Missing Missing)
   = (Thrown TypeError, newStore 5000 Missing Missing)"
  by (simp add: putSettings_def validSettings_def normalizeFilterCategories_def
      color_def knob_def clamp_def thenE_def)

lemma putSettings_example:
  "fst (putSettings exampleHost (calm 0)
      (JObj [(''primaryColor'', JStr ''#A1b2C3''), (''textColor'', JStr ''white''),
             (''headingFontSize'', JNum (Fin 12)), (''cardOpacity'', JNum (Fin (- 1))),
             (''priceSize'', JNum (Fin 2.5)), (''gridGap'', JBool True)])
      (newStore 5000 Missing Missing))
   = SettingsSaved
      \<lparr>primaryColor = ''#A1b2C3'', secondaryColor = ''#1a5c4a'', textColor = ''#ffffff'',
       accentColor = ''#ffd700'', headingFontSize = Fin 8, itemNameSize = Fin 1.8,
       descriptionSize = Fin 0.95, priceSize = Fin 2.5, cardOpacity = Fin 0, gridGap = Fin 2,
       filterCategories = getDefaultFilterCategories\<rparr>"
  by (simp add: putSettings_def validSettings_def normalizeFilterCategories_def
      color_def knob_def clamp_def thenE_def isHex_def exampleHost_def
      writeSettings_def writeSettings_from.simps maxRetries_def writeSettings_attempt_def
      writeSettings_try_def acquireLock_def releaseLock_def calm_def newStore_def settingsValue_def)

theorem putSettings_normalizes_witness:
  "converts exampleHost
      (JObj [(''primaryColor'', JStr ''#A1b2C3''), (''textColor'', JStr ''white''),
             (''headingFontSize'', JNum (Fin 12)), (''cardOpacity'', JNum (Fin (- 1))),
             (''priceSize'', JNum (Fin 2.5)), (''gridGap'', JBool True)])
   \<and> (\<exists>s. fst (putSettings exampleHost (calm 0)
            (JObj [(''primaryColor'', JStr ''#A1b2C3''), (''textColor'', JStr ''white''),
                   (''headingFontSize'', JNum (Fin 12)), (''cardOpacity'', JNum (Fin (- 1))),
                   (''priceSize'', JNum (Fin 2.5)), (''gridGap'', JBool True)])
            (newStore 5000 Missing Missing)) = SettingsSaved s
         \<and> SETTINGS_FILE (snd (putSettings exampleHost (calm 0)
            (JObj [(''primaryColor'', JStr ''#A1b2C3''), (''textColor'', JStr ''white''),
                   (''headingFontSize'', JNum (Fin 12)), (''cardOpacity'', JNum (Fin (- 1))),
                   (''priceSize'', JNum (Fin 2.5)), (''gridGap'', JBool True)])
            (newStore 5000 Missing Missing))) = Json (settingsValue s)
         \<and> primaryColor s = ''#A1b2C3'' \<and> secondaryColor s = ''#1a5c4a''
         \<and> textColor s = ''#ffffff'' \<and> accentColor s = ''#ffd700''
         \<and> headingFontSize s = Fin 8 \<and> itemNameSize s = Fin 1.8
         \<and> descriptionSize s = Fin 0.95 \<and> priceSize s = Fin 2.5
         \<and> cardOpacity s = Fin 0 \<and> gridGap s = Fin 2)"
proof -
  let ?body = "JObj [(''primaryColor'', JStr ''#A1b2C3''), (''textColor'', JStr ''white''),
             (''headingFontSize'', JNum (Fin 12)), (''cardOpacity'', JNum (Fin (- 1))),
             (''priceSize'', JNum (Fin 2.5)), (''gridGap'', JBool True)]"
  let ?r = "putSettings exampleHost (calm 0) ?body (newStore 5000 Missing Missing)"
  have c: "converts exampleHost ?body"
    by (simp add: converts_def knobs_def normalizeFilterCategories_def knob_def clamp_def
        thenE_def exampleHost_def)
  have saved: "fst ?r \<noteq> SaveFailed"
    by (simp only: putSettings_example) simp
  from putSettings_normalizes [of exampleHost "calm 0" ?body "newStore 5000 Missing Missing"] c saved
  obtain s where s: "fst ?r = SettingsSaved s" "SETTINGS_FILE (snd ?r) = Json (settingsValue s)"
    and colors: "primaryColor s = keptColor (field ?body ''primaryColor'') ''#0d3b2e''"
      "secondaryColor s = keptColor (field ?body ''secondaryColor'') ''#1a5c4a''"
      "textColor s = keptColor (field ?body ''textColor'') ''#ffffff''"
      "accentColor s = keptColor (field ?body ''accentColor'') ''#ffd700''"
    and numbers: "\<exists>num. parseFloat exampleHost (field ?body ''headingFontSize'') = Inr num
                  \<and> headingFontSize s = clamped 2 8 4 num"
      "\<exists>num. parseFloat exampleHost (field ?body ''itemNameSize'') = Inr num
                  \<and> itemNameSize s = clamped 1 3 1.8 num"
      "\<exists>num. parseFloat exampleHost (field ?body ''descriptionSize'') = Inr num
                  \<and> descriptionSize s = clamped 0.7 1.5 0.95 num"
      "\<exists>num. parseFloat exampleHost (field ?body ''priceSize'') = Inr num
                  \<and> priceSize s = clamped 1 3 1.5 num"
      "\<exists>num. parseFloat exampleHost (field ?body ''cardOpacity'') = Inr num
                  \<and> cardOpacity s = clamped 0 1 0.05 num"
      "\<exists>num. parseFloat exampleHost (field ?body ''gridGap'') = Inr num
                  \<and> gridGap s = clamped 0.5 5 2 num"
    by blast
  from colors have k: "primaryColor s = ''#A1b2C3''" "secondaryColor s = ''#1a5c4a''"
      "textColor s = ''#ffffff''" "accentColor s = ''#ffd700''"
    by (simp_all add: isHex_def)
  from numbers have n: "headingFontSize s = Fin 8" "itemNameSize s = Fin 1.8"
      "descriptionSize s = Fin 0.95" "priceSize s = Fin 2.5"
      "cardOpacity s = Fin 0" "gridGap s = Fin 2"
    by auto
  from c s k n show ?thesis
    by blast
qed

section \<open>Properties of the routes\<close>

text \<open>
  C7. No \<^verbatim>\<open>PATCH\<close> request is answered by a route, and no route has the path
  \<^verbatim>\<open>/api/menu/:id/availability\<close> that the admin script calls: the request ends in the
  404 middleware and the store is not touched.
\<close>

theorem no_availability_route:
  "dispatch PATCH path = None \<and> dispatch PUT [''api'', ''menu'', i, ''availability''] = None
   \<and> dispatch POST [''api'', ''menu'', i, ''availability''] = None"
  by (simp add: dispatch_def routes_def)

section \<open>Properties of the schedule evaluator\<close>

text \<open>
  C6. With the window 09:00 to 17:00 and no other constraint, on any day: at 09:00 the item
  is available; at 08:59 it is not, and opens the same day at 09:00; at 17:00 it is
  available; at 17:01 it is not, and opens the next day at 09:00.
\<close>

theorem evaluate_time_window_boundaries:
  "sa_isAvailable (evaluate (Some \<lparr>days = [], timeRange = Some (hhmm 9 0, hhmm 17 0), dateRange = None\<rparr>)
      \<lparr>day = d, minute = hhmm 9 0\<rparr>)
   \<and> evaluate (Some \<lparr>days = [], timeRange = Some (hhmm 9 0, hhmm 17 0), dateRange = None\<rparr>)
      \<lparr>day = d, minute = hhmm 8 59\<rparr>
     = \<lparr>sa_isAvailable = False, sa_reason = Some ''outside hours'',
        sa_nextAvailable = Some \<lparr>day = d, minute = hhmm 9 0\<rparr>\<rparr>
   \<and> sa_isAvailable (evaluate (Some \<lparr>days = [], timeRange = Some (hhmm 9 0, hhmm 17 0), dateRange = None\<rparr>)
      \<lparr>day = d, minute = hhmm 17 0\<rparr>)
   \<and> evaluate (Some \<lparr>days = [], timeRange = Some (hhmm 9 0, hhmm 17 0), dateRange = None\<rparr>)
      \<lparr>day = d, minute = hhmm 17 1\<rparr>
     = \<lparr>sa_isAvailable = False, sa_reason = Some ''outside hours'',
        sa_nextAvailable = Some \<lparr>day = d + 1, minute = hhmm 9 0\<rparr>\<rparr>"
  by (simp add: evaluate_def hhmm_def dayMatches_def beforeStart_def afterEnd_def available_def
      unavailable_def opensOn_def firstMatchingDay_def startMinute_def upt_rec)

section \<open>Properties of the menu routes\<close>

lemmas eval_defs = postMenu_def putMenu_def deleteMenu_def readMenuData_def writeMenuData_def
  writeMenuData_from.simps maxRetries_def writeMenuData_attempt_def writeMenuData_try_def
  acquireLock_def releaseLock_def calm_def calmReq_def newStore_def currentMaxId_def inPlace_def
  setProp_def otherIds_def thenE_def orZero_def orEmpty_def Let_def toDouble_Ints



text \<open>The scenario of the spec: when the first item is deleted instead, the third id is 3.\<close>

lemma run_scenario_example:
  "fst (run exampleHost (\<lambda>item. True)
      [PostMenu (calmReq 1000) [(''name'', JStr ''Burger'')],
       PostMenu (calmReq 2000) [(''name'', JStr ''Fries'')],
       DeleteMenu (calmReq 3000) (Fin 1),
       PostMenu (calmReq 4000) [(''name'', JStr ''Salad'')]]
      (newStore 5000 Missing Missing))
   = [ItemCreated (JObj [(''name'', JStr ''Burger''), (''id'', JNum (Fin 1))]),
      ItemCreated (JObj [(''name'', JStr ''Fries''), (''id'', JNum (Fin 2))]),
      ItemDeleted,
      ItemCreated (JObj [(''name'', JStr ''Salad''), (''id'', JNum (Fin 3))])]"
  by (simp add: eval_defs)

text \<open>
  Why the amended claim speaks of requests that are saved. A create whose write fails has
  already pushed its item onto the array the cache holds; within the TTL the next create
  reads that array, takes the cached maximum id, which the failed write did not update, and
  assigns the same id again. Here the file ends with two items of id 1.
\<close>

lemma run_failed_write_example:
  "run exampleHost (\<lambda>item. True)
      [PostMenu \<lparr>readClock = 1000, heal = calm 1000, handlerClock = 1000,
                 save = (\<lambda>k. \<lparr>others = Untouched, writeFile_throws = False,
                               rename_throws = True, clock = 1000\<rparr>)\<rparr>
         [(''name'', JStr ''Burger'')],
       PostMenu (calmReq 2000) [(''name'', JStr ''Fries'')]]
      ((newStore 5000 (Json (JArr [])) Missing))
   = ([SaveFailed,
       ItemCreated (JObj [(''name'', JStr ''Fries''), (''id'', JNum (Fin 1))])],
      (newStore 5000
         (Json (JArr [JObj [(''name'', JStr ''Burger''), (''id'', JNum (Fin 1))],
                      JObj [(''name'', JStr ''Fries''), (''id'', JNum (Fin 1))]])) Missing)
        \<lparr>cache_maxId := Some (Fin 1), cache_maxIdTimestamp := 2000\<rparr>)"
  by (simp add: eval_defs fun_upd_def)

text \<open>
  Why the amended claim speaks of ids below \<open>2\<^sup>5\<^sup>3\<close>. With an item of id
  \<open>2\<^sup>5\<^sup>3 = 9007199254740992\<close> in the file, \<^verbatim>\<open>maxId + 1\<close> is \<^verbatim>\<open>maxId\<close>, and the new item
  is given the id the stored item has.
\<close>

lemma run_unsafe_id_example:
  "fst (handle exampleHost (\<lambda>item. True) (PostMenu (calmReq 1000) [(''name'', JStr ''Fries'')])
      (newStore 5000
         (Json (JArr [JObj [(''name'', JStr ''Burger''), (''id'', JNum (Fin 9007199254740992))]]))
         Missing))
   = ItemCreated (JObj [(''name'', JStr ''Fries''), (''id'', JNum (Fin 9007199254740992))])"
  by (simp add: eval_defs toDouble_unsafe)
































end
